theory Spec2Isabelle
  imports Main "HOL-Library.Word"
begin

unbundle bit_operations_syntax

section \<open>The Advantech AHC1EC0 embedded-controller core driver\<close>

text \<open>
  A shallow embedding of \<^verbatim>\<open>drivers/mfd/ahc1ec0.c\<close> and the constants of
  \<^verbatim>\<open>include/linux/mfd/ahc1ec0.h\<close>. The driver talks to the embedded controller
  (EC) through two I/O ports with \<^verbatim>\<open>inb\<close> and \<^verbatim>\<open>outb\<close>, polls two status bits
  with a bounded retry loop, and serialises every exchange with one mutex.

  The EC itself is hardware. It is a parameter of every operation: a record of the three
  functions through which the driver can touch it (port read, port write, delay), over
  an arbitrary device state \<open>'e\<close>. Theorems that do not mention a particular device hold
  for every EC, however it behaves.
\<close>

subsection \<open>Constants of the header\<close>

type_synonym u8 = "8 word"
type_synonym u32 = "32 word"
type_synonym ioport = "16 word"
type_synonym ptr = nat

definition EC_COMMAND_PORT :: ioport where "EC_COMMAND_PORT = 0x29A"
definition EC_STATUS_PORT :: ioport where "EC_STATUS_PORT = 0x299"

definition EC_RETRY_UDELAY :: nat where "EC_RETRY_UDELAY = 200"
definition EC_MAX_TIMEOUT_COUNT :: nat where "EC_MAX_TIMEOUT_COUNT = 5000"
definition EC_COMMAND_BIT_OBF :: u8 where "EC_COMMAND_BIT_OBF = 0x01"
definition EC_COMMAND_BIT_IBF :: u8 where "EC_COMMAND_BIT_IBF = 0x02"

definition EC_AD_INDEX_WRITE :: u8 where "EC_AD_INDEX_WRITE = 0x15"
definition EC_AD_LSB_READ :: u8 where "EC_AD_LSB_READ = 0x16"
definition EC_AD_MSB_READ :: u8 where "EC_AD_MSB_READ = 0x1F"

definition EC_ACPI_RAM_READ :: u8 where "EC_ACPI_RAM_READ = 0x80"
definition EC_ACPI_DATA_WRITE :: u8 where "EC_ACPI_DATA_WRITE = 0x81"

definition EC_TBL_WRITE_ITEM :: u8 where "EC_TBL_WRITE_ITEM = 0x20"
definition EC_TBL_GET_PIN :: u8 where "EC_TBL_GET_PIN = 0x21"
definition EC_TBL_GET_DEVID :: u8 where "EC_TBL_GET_DEVID = 0x22"
definition EC_MAX_TBL_NUM :: nat where "EC_MAX_TBL_NUM = 32"

definition EC_HW_RAM_READ :: u8 where "EC_HW_RAM_READ = 0x88"
definition EC_HW_RAM_WRITE :: u8 where "EC_HW_RAM_WRITE = 0x89"

definition EC_GPIO_INDEX_WRITE :: u8 where "EC_GPIO_INDEX_WRITE = 0x10"
definition EC_GPIO_STATUS_READ :: u8 where "EC_GPIO_STATUS_READ = 0x11"
definition EC_GPIO_STATUS_WRITE :: u8 where "EC_GPIO_STATUS_WRITE = 0x12"
definition EC_GPIO_DIR_READ :: u8 where "EC_GPIO_DIR_READ = 0x1D"
definition EC_GPIO_DIR_WRITE :: u8 where "EC_GPIO_DIR_WRITE = 0x1E"

text \<open>
  Modelled from the spec: \<^verbatim>\<open>ETIMEDOUT\<close> is the kernel's errno constant of
  \<^verbatim>\<open>linux/errno.h\<close>, which the driver includes and which is not among the sources
  here. The spec calls the outcome \<open>Timeout\<close>; the driver returns \<^verbatim>\<open>-ETIMEDOUT\<close>. The
  value is the one of the generic errno table.
\<close>

definition ETIMEDOUT :: int where "ETIMEDOUT = 110"

text \<open>
  Modelled from the spec: \<^verbatim>\<open>ENOMEM\<close>, from the same header, is what the initialisation
  returns when an allocation fails; the value is the one of the generic errno table.
\<close>

definition ENOMEM :: int where "ENOMEM = 12"

subsection \<open>Data\<close>

text \<open>\<^verbatim>\<open>struct ec_dynamic_table\<close>: one slot of the device table.\<close>

record ec_dynamic_table =
  device_id :: u8
  hw_pin_num :: u8

text \<open>
  What can be observed of a run, in order: taking and releasing the mutex of
  \<^verbatim>\<open>struct adv_ec_platform_data\<close>, every \<^verbatim>\<open>inb\<close> with the byte it returned, every
  \<^verbatim>\<open>outb\<close> (value first, port second, as in C), every \<^verbatim>\<open>udelay\<close>, and every write
  through a caller's \<^verbatim>\<open>unsigned char *\<close>.
\<close>

datatype event =
    MutexLock
  | MutexUnlock
  | Inb ioport u8
  | Outb u8 ioport
  | Udelay nat
  | Store ptr u8

text \<open>The EC as the driver reaches it.\<close>

record 'e ec_hw =
  hw_inb :: "ioport \<Rightarrow> 'e \<Rightarrow> u8 \<times> 'e"
  hw_outb :: "u8 \<Rightarrow> ioport \<Rightarrow> 'e \<Rightarrow> 'e"
  hw_udelay :: "nat \<Rightarrow> 'e \<Rightarrow> 'e"

text \<open>
  The state the driver runs in. \<open>lock\<close> (held or free) and \<open>dym_tbl\<close> are the fields of
  \<^verbatim>\<open>struct adv_ec_platform_data\<close> that the protocol code uses; \<open>ec\<close> is the device,
  \<open>mem\<close> the callers' memory that output pointers point into, and \<open>trace\<close> the events so
  far. \<open>dym_tbl\<close> is the array of \<^verbatim>\<open>EC_MAX_TBL_NUM\<close> entries that
  \<^verbatim>\<open>adv_ec_init_ec_data\<close> allocates; a list update outside the list does nothing, so
  theorems about the table's contents assume that length.
\<close>

record 'e machine =
  ec :: 'e
  trace :: "event list"
  lock :: bool
  mem :: "ptr \<Rightarrow> u8"
  dym_tbl :: "ec_dynamic_table list"

subsection \<open>Port access, delay, mutex, output pointers\<close>

definition inb :: "'e ec_hw \<Rightarrow> ioport \<Rightarrow> 'e machine \<Rightarrow> u8 \<times> 'e machine" where
  "inb hw port s =
     (case hw_inb hw port (ec s) of
        (v, e) \<Rightarrow> (v, s\<lparr>ec := e, trace := trace s @ [Inb port v]\<rparr>))"

definition outb :: "'e ec_hw \<Rightarrow> u8 \<Rightarrow> ioport \<Rightarrow> 'e machine \<Rightarrow> 'e machine" where
  "outb hw v port s = s\<lparr>ec := hw_outb hw v port (ec s), trace := trace s @ [Outb v port]\<rparr>"

definition udelay :: "'e ec_hw \<Rightarrow> nat \<Rightarrow> 'e machine \<Rightarrow> 'e machine" where
  "udelay hw us s = s\<lparr>ec := hw_udelay hw us (ec s), trace := trace s @ [Udelay us]\<rparr>"

text \<open>
  \<^verbatim>\<open>mutex_lock\<close> on a held mutex sleeps until the holder releases it. In one thread of
  control nobody will: the call does not return, which is \<open>None\<close>.
\<close>

definition mutex_lock :: "'e machine \<Rightarrow> 'e machine option" where
  "mutex_lock s =
     (if lock s then None else Some (s\<lparr>lock := True, trace := trace s @ [MutexLock]\<rparr>))"

definition mutex_unlock :: "'e machine \<Rightarrow> 'e machine" where
  "mutex_unlock s = s\<lparr>lock := False, trace := trace s @ [MutexUnlock]\<rparr>"

text \<open>\<^verbatim>\<open>*p = v\<close> for a caller's output pointer.\<close>

definition store :: "ptr \<Rightarrow> u8 \<Rightarrow> 'e machine \<Rightarrow> 'e machine" where
  "store p v s = s\<lparr>mem := (mem s)(p := v), trace := trace s @ [Store p v]\<rparr>"

subsection \<open>The two bounded polls\<close>

text \<open>
  \<^verbatim>\<open>for (i = 0; i < EC_MAX_TIMEOUT_COUNT; i++)\<close>, from the value of \<open>i\<close> on. The
  result is the returned \<^verbatim>\<open>int\<close>: 0, or \<^verbatim>\<open>-ETIMEDOUT\<close> once the loop runs out.
\<close>

function ec_wait_write_from :: "'e ec_hw \<Rightarrow> nat \<Rightarrow> 'e machine \<Rightarrow> int \<times> 'e machine" where
  "ec_wait_write_from hw i s =
     (if i < EC_MAX_TIMEOUT_COUNT then
        (case inb hw EC_COMMAND_PORT s of
           (st, s1) \<Rightarrow>
             if st AND EC_COMMAND_BIT_IBF = 0 then (0, s1)
             else ec_wait_write_from hw (i + 1) (udelay hw EC_RETRY_UDELAY s1))
      else (- ETIMEDOUT, s))"
  by pat_completeness auto
termination
  by (relation "measure (\<lambda>(hw, i, s). EC_MAX_TIMEOUT_COUNT - i)") auto

declare ec_wait_write_from.simps [simp del]

definition ec_wait_write :: "'e ec_hw \<Rightarrow> 'e machine \<Rightarrow> int \<times> 'e machine" where
  "ec_wait_write hw s = ec_wait_write_from hw 0 s"

function ec_wait_read_from :: "'e ec_hw \<Rightarrow> nat \<Rightarrow> 'e machine \<Rightarrow> int \<times> 'e machine" where
  "ec_wait_read_from hw i s =
     (if i < EC_MAX_TIMEOUT_COUNT then
        (case inb hw EC_COMMAND_PORT s of
           (st, s1) \<Rightarrow>
             if st AND EC_COMMAND_BIT_OBF \<noteq> 0 then (0, s1)
             else ec_wait_read_from hw (i + 1) (udelay hw EC_RETRY_UDELAY s1))
      else (- ETIMEDOUT, s))"
  by pat_completeness auto
termination
  by (relation "measure (\<lambda>(hw, i, s). EC_MAX_TIMEOUT_COUNT - i)") auto

declare ec_wait_read_from.simps [simp del]

definition ec_wait_read :: "'e ec_hw \<Rightarrow> 'e machine \<Rightarrow> int \<times> 'e machine" where
  "ec_wait_read hw s = ec_wait_read_from hw 0 s"

subsection \<open>The logical operations\<close>

text \<open>
  Every function of the driver has the same \<^verbatim>\<open>error:\<close> label: release the mutex, log
  (\<^verbatim>\<open>dev_err\<close> or \<^verbatim>\<open>dev_warn\<close>, which touch nothing modelled here), return \<open>ret\<close>.
\<close>

definition goto_error :: "int \<Rightarrow> 'e machine \<Rightarrow> int \<times> 'e machine" where
  "goto_error ret s = (ret, mutex_unlock s)"

definition read_hw_ram :: "'e ec_hw \<Rightarrow> u8 \<Rightarrow> ptr \<Rightarrow> 'e machine \<Rightarrow> (int \<times> 'e machine) option" where
  "read_hw_ram hw addr data s0 =
     (case mutex_lock s0 of
        None \<Rightarrow> None
      | Some s \<Rightarrow> Some (
          case ec_wait_write hw s of (ret, s) \<Rightarrow>
          if ret \<noteq> 0 then goto_error ret s else
          let s = outb hw EC_HW_RAM_READ EC_COMMAND_PORT s in
          case ec_wait_write hw s of (ret, s) \<Rightarrow>
          if ret \<noteq> 0 then goto_error ret s else
          let s = outb hw addr EC_STATUS_PORT s in
          case ec_wait_read hw s of (ret, s) \<Rightarrow>
          if ret \<noteq> 0 then goto_error ret s else
          case inb hw EC_STATUS_PORT s of (v, s) \<Rightarrow>
          let s = store data v s in
          (ret, mutex_unlock s)))"

definition write_hw_ram :: "'e ec_hw \<Rightarrow> u8 \<Rightarrow> u8 \<Rightarrow> 'e machine \<Rightarrow> (int \<times> 'e machine) option" where
  "write_hw_ram hw addr data s0 =
     (case mutex_lock s0 of
        None \<Rightarrow> None
      | Some s \<Rightarrow> Some (
          case ec_wait_write hw s of (ret, s) \<Rightarrow>
          if ret \<noteq> 0 then goto_error ret s else
          let s = outb hw EC_HW_RAM_WRITE EC_COMMAND_PORT s in
          case ec_wait_write hw s of (ret, s) \<Rightarrow>
          if ret \<noteq> 0 then goto_error ret s else
          let s = outb hw addr EC_STATUS_PORT s in
          case ec_wait_write hw s of (ret, s) \<Rightarrow>
          if ret \<noteq> 0 then goto_error ret s else
          let s = outb hw data EC_STATUS_PORT s in
          (0, mutex_unlock s)))"

text \<open>
  \<^verbatim>\<open>ret_val = ((MSB << 8) | LSB) & 0x03FF; ret_val = ret_val * multi * 100;\<close> on
  \<^verbatim>\<open>u32 ret_val\<close> and \<^verbatim>\<open>unsigned int LSB, MSB\<close>, then \<^verbatim>\<open>return ret_val\<close> from a
  function that returns \<^verbatim>\<open>int\<close>: the 32 bits read as two's complement.
\<close>

definition ad_ret_val :: "u8 \<Rightarrow> u8 \<Rightarrow> u8 \<Rightarrow> u32" where
  "ad_ret_val LSB MSB multi =
     ((push_bit 8 (ucast MSB) OR ucast LSB) AND 0x03FF) * ucast multi * 100"

definition read_ad_value :: "'e ec_hw \<Rightarrow> u8 \<Rightarrow> u8 \<Rightarrow> 'e machine \<Rightarrow> (int \<times> 'e machine) option" where
  "read_ad_value hw hwpin multi s0 =
     (case mutex_lock s0 of
        None \<Rightarrow> None
      | Some s \<Rightarrow> Some (
          case ec_wait_write hw s of (ret, s) \<Rightarrow>
          if ret \<noteq> 0 then goto_error ret s else
          let s = outb hw EC_AD_INDEX_WRITE EC_COMMAND_PORT s in
          case ec_wait_write hw s of (ret, s) \<Rightarrow>
          if ret \<noteq> 0 then goto_error ret s else
          let s = outb hw hwpin EC_STATUS_PORT s in
          case ec_wait_read hw s of (ret, s) \<Rightarrow>
          if ret \<noteq> 0 then goto_error ret s else
          case inb hw EC_STATUS_PORT s of (idx, s) \<Rightarrow>
          if idx = 0xff then (- 1, mutex_unlock s) else
          case ec_wait_write hw s of (ret, s) \<Rightarrow>
          if ret \<noteq> 0 then goto_error ret s else
          let s = outb hw EC_AD_LSB_READ EC_COMMAND_PORT s in
          case ec_wait_read hw s of (ret, s) \<Rightarrow>
          if ret \<noteq> 0 then goto_error ret s else
          case inb hw EC_STATUS_PORT s of (LSB, s) \<Rightarrow>
          case ec_wait_write hw s of (ret, s) \<Rightarrow>
          if ret \<noteq> 0 then goto_error ret s else
          let s = outb hw EC_AD_MSB_READ EC_COMMAND_PORT s in
          case ec_wait_read hw s of (ret, s) \<Rightarrow>
          if ret \<noteq> 0 then goto_error ret s else
          case inb hw EC_STATUS_PORT s of (MSB, s) \<Rightarrow>
          (sint (ad_ret_val LSB MSB multi), mutex_unlock s)))"

definition read_acpi_value :: "'e ec_hw \<Rightarrow> u8 \<Rightarrow> ptr \<Rightarrow> 'e machine \<Rightarrow> (int \<times> 'e machine) option" where
  "read_acpi_value hw addr pvalue s0 =
     (case mutex_lock s0 of
        None \<Rightarrow> None
      | Some s \<Rightarrow> Some (
          case ec_wait_write hw s of (ret, s) \<Rightarrow>
          if ret \<noteq> 0 then goto_error ret s else
          let s = outb hw EC_ACPI_RAM_READ EC_COMMAND_PORT s in
          case ec_wait_write hw s of (ret, s) \<Rightarrow>
          if ret \<noteq> 0 then goto_error ret s else
          let s = outb hw addr EC_STATUS_PORT s in
          case ec_wait_read hw s of (ret, s) \<Rightarrow>
          if ret \<noteq> 0 then goto_error ret s else
          case inb hw EC_STATUS_PORT s of (v, s) \<Rightarrow>
          let s = store pvalue v s in
          (0, mutex_unlock s)))"

definition write_acpi_value :: "'e ec_hw \<Rightarrow> u8 \<Rightarrow> u8 \<Rightarrow> 'e machine \<Rightarrow> (int \<times> 'e machine) option" where
  "write_acpi_value hw addr v s0 =
     (case mutex_lock s0 of
        None \<Rightarrow> None
      | Some s \<Rightarrow> Some (
          case ec_wait_write hw s of (ret, s) \<Rightarrow>
          if ret \<noteq> 0 then goto_error ret s else
          let s = outb hw EC_ACPI_DATA_WRITE EC_COMMAND_PORT s in
          case ec_wait_write hw s of (ret, s) \<Rightarrow>
          if ret \<noteq> 0 then goto_error ret s else
          let s = outb hw addr EC_STATUS_PORT s in
          case ec_wait_write hw s of (ret, s) \<Rightarrow>
          if ret \<noteq> 0 then goto_error ret s else
          let s = outb hw v EC_STATUS_PORT s in
          (0, mutex_unlock s)))"

text \<open>
  The four GPIO functions select the pin first. When the EC answers the selection with
  \<^verbatim>\<open>0xff\<close> they release the mutex and \<^verbatim>\<open>return -1\<close>, with no jump to \<^verbatim>\<open>error:\<close>.
\<close>

definition read_gpio_status :: "'e ec_hw \<Rightarrow> u8 \<Rightarrow> ptr \<Rightarrow> 'e machine \<Rightarrow> (int \<times> 'e machine) option" where
  "read_gpio_status hw PinNumber pvalue s0 =
     (case mutex_lock s0 of
        None \<Rightarrow> None
      | Some s \<Rightarrow> Some (
          case ec_wait_write hw s of (ret, s) \<Rightarrow>
          if ret \<noteq> 0 then goto_error ret s else
          let s = outb hw EC_GPIO_INDEX_WRITE EC_COMMAND_PORT s in
          case ec_wait_write hw s of (ret, s) \<Rightarrow>
          if ret \<noteq> 0 then goto_error ret s else
          let s = outb hw PinNumber EC_STATUS_PORT s in
          case ec_wait_read hw s of (ret, s) \<Rightarrow>
          if ret \<noteq> 0 then goto_error ret s else
          case inb hw EC_STATUS_PORT s of (idx, s) \<Rightarrow>
          if idx = 0xff then (- 1, mutex_unlock s) else
          case ec_wait_write hw s of (ret, s) \<Rightarrow>
          if ret \<noteq> 0 then goto_error ret s else
          let s = outb hw EC_GPIO_STATUS_READ EC_COMMAND_PORT s in
          case ec_wait_read hw s of (ret, s) \<Rightarrow>
          if ret \<noteq> 0 then goto_error ret s else
          case inb hw EC_STATUS_PORT s of (v, s) \<Rightarrow>
          let s = store pvalue v s in
          (0, mutex_unlock s)))"

definition write_gpio_status :: "'e ec_hw \<Rightarrow> u8 \<Rightarrow> u8 \<Rightarrow> 'e machine \<Rightarrow> (int \<times> 'e machine) option" where
  "write_gpio_status hw PinNumber v s0 =
     (case mutex_lock s0 of
        None \<Rightarrow> None
      | Some s \<Rightarrow> Some (
          case ec_wait_write hw s of (ret, s) \<Rightarrow>
          if ret \<noteq> 0 then goto_error ret s else
          let s = outb hw EC_GPIO_INDEX_WRITE EC_COMMAND_PORT s in
          case ec_wait_write hw s of (ret, s) \<Rightarrow>
          if ret \<noteq> 0 then goto_error ret s else
          let s = outb hw PinNumber EC_STATUS_PORT s in
          case ec_wait_read hw s of (ret, s) \<Rightarrow>
          if ret \<noteq> 0 then goto_error ret s else
          case inb hw EC_STATUS_PORT s of (idx, s) \<Rightarrow>
          if idx = 0xff then (- 1, mutex_unlock s) else
          case ec_wait_write hw s of (ret, s) \<Rightarrow>
          if ret \<noteq> 0 then goto_error ret s else
          let s = outb hw EC_GPIO_STATUS_WRITE EC_COMMAND_PORT s in
          case ec_wait_write hw s of (ret, s) \<Rightarrow>
          if ret \<noteq> 0 then goto_error ret s else
          let s = outb hw v EC_STATUS_PORT s in
          (0, mutex_unlock s)))"

definition read_gpio_dir :: "'e ec_hw \<Rightarrow> u8 \<Rightarrow> ptr \<Rightarrow> 'e machine \<Rightarrow> (int \<times> 'e machine) option" where
  "read_gpio_dir hw PinNumber pvalue s0 =
     (case mutex_lock s0 of
        None \<Rightarrow> None
      | Some s \<Rightarrow> Some (
          case ec_wait_write hw s of (ret, s) \<Rightarrow>
          if ret \<noteq> 0 then goto_error ret s else
          let s = outb hw EC_GPIO_INDEX_WRITE EC_COMMAND_PORT s in
          case ec_wait_write hw s of (ret, s) \<Rightarrow>
          if ret \<noteq> 0 then goto_error ret s else
          let s = outb hw PinNumber EC_STATUS_PORT s in
          case ec_wait_read hw s of (ret, s) \<Rightarrow>
          if ret \<noteq> 0 then goto_error ret s else
          case inb hw EC_STATUS_PORT s of (idx, s) \<Rightarrow>
          if idx = 0xff then (- 1, mutex_unlock s) else
          case ec_wait_write hw s of (ret, s) \<Rightarrow>
          if ret \<noteq> 0 then goto_error ret s else
          let s = outb hw EC_GPIO_DIR_READ EC_COMMAND_PORT s in
          case ec_wait_read hw s of (ret, s) \<Rightarrow>
          if ret \<noteq> 0 then goto_error ret s else
          case inb hw EC_STATUS_PORT s of (v, s) \<Rightarrow>
          let s = store pvalue v s in
          (0, mutex_unlock s)))"

definition write_gpio_dir :: "'e ec_hw \<Rightarrow> u8 \<Rightarrow> u8 \<Rightarrow> 'e machine \<Rightarrow> (int \<times> 'e machine) option" where
  "write_gpio_dir hw PinNumber v s0 =
     (case mutex_lock s0 of
        None \<Rightarrow> None
      | Some s \<Rightarrow> Some (
          case ec_wait_write hw s of (ret, s) \<Rightarrow>
          if ret \<noteq> 0 then goto_error ret s else
          let s = outb hw EC_GPIO_INDEX_WRITE EC_COMMAND_PORT s in
          case ec_wait_write hw s of (ret, s) \<Rightarrow>
          if ret \<noteq> 0 then goto_error ret s else
          let s = outb hw PinNumber EC_STATUS_PORT s in
          case ec_wait_read hw s of (ret, s) \<Rightarrow>
          if ret \<noteq> 0 then goto_error ret s else
          case inb hw EC_STATUS_PORT s of (idx, s) \<Rightarrow>
          if idx = 0xff then (- 1, mutex_unlock s) else
          case ec_wait_write hw s of (ret, s) \<Rightarrow>
          if ret \<noteq> 0 then goto_error ret s else
          let s = outb hw EC_GPIO_DIR_WRITE EC_COMMAND_PORT s in
          case ec_wait_write hw s of (ret, s) \<Rightarrow>
          if ret \<noteq> 0 then goto_error ret s else
          let s = outb hw v EC_STATUS_PORT s in
          (0, mutex_unlock s)))"

definition write_hwram_command :: "'e ec_hw \<Rightarrow> u8 \<Rightarrow> 'e machine \<Rightarrow> (int \<times> 'e machine) option" where
  "write_hwram_command hw data s0 =
     (case mutex_lock s0 of
        None \<Rightarrow> None
      | Some s \<Rightarrow> Some (
          case ec_wait_write hw s of (ret, s) \<Rightarrow>
          if ret \<noteq> 0 then goto_error ret s else
          let s = outb hw data EC_COMMAND_PORT s in
          (0, mutex_unlock s)))"

subsection \<open>Dynamic table discovery\<close>

text \<open>
  The first loop of \<^verbatim>\<open>adv_get_dynamic_tab\<close>: both fields of every slot are set to
  \<^verbatim>\<open>0xff\<close>.
\<close>

definition tbl_set_sentinel :: "ec_dynamic_table list \<Rightarrow> nat \<Rightarrow> ec_dynamic_table list" where
  "tbl_set_sentinel tbl i = tbl[i := (tbl ! i)\<lparr>device_id := 0xff, hw_pin_num := 0xff\<rparr>]"

definition tbl_reset :: "ec_dynamic_table list \<Rightarrow> ec_dynamic_table list" where
  "tbl_reset tbl = foldl tbl_set_sentinel tbl [0..<EC_MAX_TBL_NUM]"

text \<open>
  The body of the second loop for slot \<open>i\<close> leaves in one of three ways: it falls through
  to the next iteration, it jumps to \<^verbatim>\<open>pass:\<close>, or it jumps to \<^verbatim>\<open>error:\<close> with \<open>ret\<close> set.
\<close>

datatype loop_exit = Next_slot | Goto_pass | Goto_error int

definition tbl_slot :: "'e ec_hw \<Rightarrow> nat \<Rightarrow> 'e machine \<Rightarrow> loop_exit \<times> 'e machine" where
  "tbl_slot hw i s =
     (case ec_wait_write hw s of (ret, s) \<Rightarrow>
      if ret \<noteq> 0 then (Goto_error ret, s) else
      let s = outb hw EC_TBL_WRITE_ITEM EC_COMMAND_PORT s in
      case ec_wait_write hw s of (ret, s) \<Rightarrow>
      if ret \<noteq> 0 then (Goto_error ret, s) else
      let s = outb hw (of_nat i) EC_STATUS_PORT s in
      case ec_wait_read hw s of (ret, s) \<Rightarrow>
      if ret \<noteq> 0 then (Goto_error ret, s) else
      case inb hw EC_STATUS_PORT s of (pin_tmp, s) \<Rightarrow>
      if pin_tmp = 0xff then (Goto_pass, s) else
      case ec_wait_write hw s of (ret, s) \<Rightarrow>
      if ret \<noteq> 0 then (Goto_error ret, s) else
      let s = outb hw EC_TBL_GET_PIN EC_COMMAND_PORT s in
      case ec_wait_read hw s of (ret, s) \<Rightarrow>
      if ret \<noteq> 0 then (Goto_error ret, s) else
      case inb hw EC_STATUS_PORT s of (v, s) \<Rightarrow>
      let pin_tmp = v AND 0xff in
      if pin_tmp = 0xff then (Goto_pass, s) else
      case ec_wait_write hw s of (ret, s) \<Rightarrow>
      if ret \<noteq> 0 then (Goto_error ret, s) else
      let s = outb hw EC_TBL_GET_DEVID EC_COMMAND_PORT s in
      case ec_wait_read hw s of (ret, s) \<Rightarrow>
      if ret \<noteq> 0 then (Goto_error ret, s) else
      case inb hw EC_STATUS_PORT s of (v, s) \<Rightarrow>
      let dev = v AND 0xff in
      (Next_slot,
       s\<lparr>dym_tbl := (dym_tbl s)[i := (dym_tbl s ! i)\<lparr>device_id := dev, hw_pin_num := pin_tmp\<rparr>]\<rparr>))"

text \<open>
  \<^verbatim>\<open>for (i = 0; i < EC_MAX_TBL_NUM; i++)\<close> from the value of \<open>i\<close> on, with the value the
  function will return: 0 at \<^verbatim>\<open>pass:\<close> (reached by a jump or by the end of the loop),
  \<open>ret\<close> at \<^verbatim>\<open>error:\<close>.
\<close>

function tbl_scan_from :: "'e ec_hw \<Rightarrow> nat \<Rightarrow> 'e machine \<Rightarrow> int \<times> 'e machine" where
  "tbl_scan_from hw i s =
     (if i < EC_MAX_TBL_NUM then
        (case tbl_slot hw i s of
           (Next_slot, s1) \<Rightarrow> tbl_scan_from hw (i + 1) s1
         | (Goto_pass, s1) \<Rightarrow> (0, s1)
         | (Goto_error ret, s1) \<Rightarrow> (ret, s1))
      else (0, s))"
  by pat_completeness auto
termination
  by (relation "measure (\<lambda>(hw, i, s). EC_MAX_TBL_NUM - i)") auto

declare tbl_scan_from.simps [simp del]

definition adv_get_dynamic_tab :: "'e ec_hw \<Rightarrow> 'e machine \<Rightarrow> (int \<times> 'e machine) option" where
  "adv_get_dynamic_tab hw s0 =
     (case mutex_lock s0 of
        None \<Rightarrow> None
      | Some s \<Rightarrow> Some (
          let s = s\<lparr>dym_tbl := tbl_reset (dym_tbl s)\<rparr> in
          case tbl_scan_from hw 0 s of (ret, s) \<Rightarrow> (ret, mutex_unlock s)))"

subsection \<open>Initialisation and probe\<close>

text \<open>
  \<^verbatim>\<open>adv_ec_init_ec_data\<close> and \<^verbatim>\<open>adv_ec_probe\<close> call into the kernel: the allocator, the DMI
  tables (through \<^verbatim>\<open>adv_ec_get_productname\<close>) and the device properties (through
  \<^verbatim>\<open>adv_ec_parse_prop\<close>). What those calls answer is given from outside: whether each
  \<^verbatim>\<open>devm_kzalloc\<close> succeeds, and the \<^verbatim>\<open>int\<close> that each of the two functions returns.
\<close>

record probe_env =
  data_alloc_ok :: bool
  name_alloc_ok :: bool
  productname_ret :: int
  tbl_alloc_ok :: bool
  parse_prop_ret :: int

text \<open>
  \<^verbatim>\<open>adv_ec_init_ec_data\<close>: \<^verbatim>\<open>dym_tbl = NULL\<close> is the empty list, \<^verbatim>\<open>mutex_init\<close> leaves the
  mutex free, and the table that \<^verbatim>\<open>devm_kzalloc\<close> returns has \<^verbatim>\<open>EC_MAX_TBL_NUM\<close> zeroed
  entries. The last thing it does is to return what \<^verbatim>\<open>adv_get_dynamic_tab\<close> returns.
\<close>

definition adv_ec_init_ec_data ::
  "'e ec_hw \<Rightarrow> probe_env \<Rightarrow> 'e machine \<Rightarrow> (int \<times> 'e machine) option" where
  "adv_ec_init_ec_data hw env s0 =
     (let s = s0\<lparr>dym_tbl := [], lock := False\<rparr> in
      if \<not> name_alloc_ok env then Some (- ENOMEM, s)
      else if productname_ret env \<noteq> 0 then Some (productname_ret env, s)
      else if \<not> tbl_alloc_ok env then Some (- ENOMEM, s)
      else
        adv_get_dynamic_tab hw
          (s\<lparr>dym_tbl := replicate EC_MAX_TBL_NUM \<lparr>device_id = 0, hw_pin_num = 0\<rparr>\<rparr>))"

text \<open>
  \<^verbatim>\<open>adv_ec_probe\<close>: an error of the initialisation or of the property parsing is
  returned as it is (\<^verbatim>\<open>err_init_data:\<close> and \<^verbatim>\<open>err_prop:\<close> destroy the mutex and log);
  a sub-device that cannot be added is only logged.
\<close>

definition adv_ec_probe ::
  "'e ec_hw \<Rightarrow> probe_env \<Rightarrow> 'e machine \<Rightarrow> (int \<times> 'e machine) option" where
  "adv_ec_probe hw env s0 =
     (if \<not> data_alloc_ok env then Some (- ENOMEM, s0)
      else
        case adv_ec_init_ec_data hw env s0 of
          None \<Rightarrow> None
        | Some (ret, s) \<Rightarrow>
            if ret \<noteq> 0 then Some (ret, s)
            else if parse_prop_ret env \<noteq> 0 then Some (parse_prop_ret env, s)
            else Some (0, s))"

text \<open>
  Modelled from the spec: what becomes of the table once the probe has returned is the
  driver core's doing, which is not among the sources here. The table is a
  device-managed allocation (\<^verbatim>\<open>devm_kzalloc\<close>): when the probe returns an error the
  core releases it with everything else the probe allocated, so the partial contents
  are discarded, which is \<open>None\<close>; when the probe returns 0 the table stays as the
  probe left it.
\<close>

definition table_after_probe :: "int \<Rightarrow> 'e machine \<Rightarrow> ec_dynamic_table list option" where
  "table_after_probe ret s = (if ret \<noteq> 0 then None else Some (dym_tbl s))"

section \<open>Notions used to state the properties\<close>

subsection \<open>Traces\<close>

text \<open>The events a run added to the trace.\<close>

definition new_events :: "'e machine \<Rightarrow> 'e machine \<Rightarrow> event list" where
  "new_events s s' = drop (length (trace s)) (trace s')"

text \<open>A poll of the status bits reads the command port.\<close>

fun is_status_poll :: "event \<Rightarrow> bool" where
  "is_status_poll (Inb port v) = (port = EC_COMMAND_PORT)"
| "is_status_poll _ = False"

definition status_polls :: "event list \<Rightarrow> nat" where
  "status_polls evs = length (filter is_status_poll evs)"

text \<open>
  What the device shows to a poll loop that keeps failing: one round of the loop reads
  the command port and then delays; \<open>status_at hw e k\<close> is the status byte that poll
  number \<open>k\<close> (counted from 0) reads when the loop starts on device state \<open>e\<close>, and
  \<open>poll_events hw e n\<close> are the events of the first \<open>n\<close> rounds.
\<close>

definition poll_step :: "'e ec_hw \<Rightarrow> 'e \<Rightarrow> 'e" where
  "poll_step hw e = hw_udelay hw EC_RETRY_UDELAY (snd (hw_inb hw EC_COMMAND_PORT e))"

definition status_at :: "'e ec_hw \<Rightarrow> 'e \<Rightarrow> nat \<Rightarrow> u8" where
  "status_at hw e k = fst (hw_inb hw EC_COMMAND_PORT ((poll_step hw ^^ k) e))"

definition poll_events :: "'e ec_hw \<Rightarrow> 'e \<Rightarrow> nat \<Rightarrow> event list" where
  "poll_events hw e n =
     concat (map (\<lambda>j. [Inb EC_COMMAND_PORT (status_at hw e j), Udelay EC_RETRY_UDELAY]) [0..<n])"

text \<open>
  The events of a poll loop: reads of the command port and delays.
\<close>

fun is_poll :: "event \<Rightarrow> bool" where
  "is_poll (Inb port v) = (port = EC_COMMAND_PORT)"
| "is_poll (Udelay us) = True"
| "is_poll _ = False"

text \<open>
  The handshake of the two status bits, as a check of a trace. An \<^verbatim>\<open>outb\<close> may stand
  only right after a read of the command port that showed IBF clear; an \<^verbatim>\<open>inb\<close> of any
  port but the command port only right after a read of the command port that showed OBF
  set. \<open>prev\<close> is the event before, if there is one.
\<close>

definition saw_ibf_clear :: "event option \<Rightarrow> bool" where
  "saw_ibf_clear prev =
     (case prev of
        Some (Inb port st) \<Rightarrow> port = EC_COMMAND_PORT \<and> st AND EC_COMMAND_BIT_IBF = 0
      | _ \<Rightarrow> False)"

definition saw_obf_set :: "event option \<Rightarrow> bool" where
  "saw_obf_set prev =
     (case prev of
        Some (Inb port st) \<Rightarrow> port = EC_COMMAND_PORT \<and> st AND EC_COMMAND_BIT_OBF \<noteq> 0
      | _ \<Rightarrow> False)"

fun may_follow :: "event option \<Rightarrow> event \<Rightarrow> bool" where
  "may_follow prev (Outb v port) = saw_ibf_clear prev"
| "may_follow prev (Inb port v) = (port = EC_COMMAND_PORT \<or> saw_obf_set prev)"
| "may_follow prev _ = True"

fun handshake_from :: "event option \<Rightarrow> event list \<Rightarrow> bool" where
  "handshake_from prev [] = True"
| "handshake_from prev (e # es) = (may_follow prev e \<and> handshake_from (Some e) es)"

definition handshake_ok :: "event list \<Rightarrow> bool" where
  "handshake_ok evs = handshake_from None evs"

text \<open>The last event of \<open>evs\<close>, or \<open>prev\<close> when there is none.\<close>

definition last_event :: "event option \<Rightarrow> event list \<Rightarrow> event option" where
  "last_event prev evs = (if evs = [] then prev else Some (last evs))"

text \<open>The bytes read from the data port and the bytes written to it, in order.\<close>

fun data_read :: "event \<Rightarrow> u8 option" where
  "data_read (Inb port v) = (if port = EC_STATUS_PORT then Some v else None)"
| "data_read _ = None"

definition data_reads :: "event list \<Rightarrow> u8 list" where
  "data_reads evs = List.map_filter data_read evs"

fun data_write :: "event \<Rightarrow> u8 option" where
  "data_write (Outb v port) = (if port = EC_STATUS_PORT then Some v else None)"
| "data_write _ = None"

definition data_writes :: "event list \<Rightarrow> u8 list" where
  "data_writes evs = List.map_filter data_write evs"

text \<open>What follows the first read of the data port.\<close>

fun after_data_read :: "event list \<Rightarrow> event list" where
  "after_data_read [] = []"
| "after_data_read (e # es) = (if data_read e \<noteq> None then es else after_data_read es)"

text \<open>The events on the mutex, and the writes through output pointers.\<close>

fun is_mutex_event :: "event \<Rightarrow> bool" where
  "is_mutex_event MutexLock = True"
| "is_mutex_event MutexUnlock = True"
| "is_mutex_event _ = False"

fun is_store :: "event \<Rightarrow> bool" where
  "is_store (Store p v) = True"
| "is_store _ = False"

text \<open>
  A poll loop that ran out of its budget, as it shows in a trace. Only the poll loops
  delay, and between the rounds of one loop there is nothing but its reads of the
  command port; every other event (a write to a port, a read of the data port, an event
  on the mutex, a store) stands between two loops. So the number of delays since the
  last such event is the number of failed rounds of the loop that is running:
  \<open>count_delays n e\<close> is that number after the event \<open>e\<close> when it was \<open>n\<close> before, and
  \<open>delays_after n evs\<close> after the events \<open>evs\<close>. A loop returns \<^verbatim>\<open>-ETIMEDOUT\<close> when it has
  delayed \<^verbatim>\<open>EC_MAX_TIMEOUT_COUNT\<close> times: \<open>budget_spent n evs\<close> says that the number
  reaches \<^verbatim>\<open>EC_MAX_TIMEOUT_COUNT\<close> somewhere in \<open>evs\<close>, and \<open>after_timeout n evs\<close> are the
  events that follow the first place where it does.
\<close>

fun count_delays :: "nat \<Rightarrow> event \<Rightarrow> nat" where
  "count_delays n (Udelay us) = Suc n"
| "count_delays n (Inb port v) = (if port = EC_COMMAND_PORT then n else 0)"
| "count_delays n _ = 0"

fun delays_after :: "nat \<Rightarrow> event list \<Rightarrow> nat" where
  "delays_after n [] = n"
| "delays_after n (e # es) = delays_after (count_delays n e) es"

fun budget_spent :: "nat \<Rightarrow> event list \<Rightarrow> bool" where
  "budget_spent n [] = (EC_MAX_TIMEOUT_COUNT \<le> n)"
| "budget_spent n (e # es) = (EC_MAX_TIMEOUT_COUNT \<le> n \<or> budget_spent (count_delays n e) es)"

fun after_timeout :: "nat \<Rightarrow> event list \<Rightarrow> event list" where
  "after_timeout n [] = []"
| "after_timeout n (e # es) =
     (if EC_MAX_TIMEOUT_COUNT \<le> n then e # es else after_timeout (count_delays n e) es)"

definition poll_timed_out :: "event list \<Rightarrow> bool" where
  "poll_timed_out evs = budget_spent 0 evs"

subsection \<open>The polls as functions of the device\<close>

text \<open>
  A poll loop reads and changes the device and adds to the trace; nothing else of the
  machine takes part. Its return value, the device it leaves and the events it adds are
  therefore read off a run on a machine that holds the device and nothing else.
\<close>

definition dev_machine :: "'e \<Rightarrow> 'e machine" where
  "dev_machine e = \<lparr>ec = e, trace = [], lock = False, mem = (\<lambda>p. 0), dym_tbl = []\<rparr>"

definition ww_ret :: "'e ec_hw \<Rightarrow> 'e \<Rightarrow> int" where
  "ww_ret hw e = fst (ec_wait_write hw (dev_machine e))"

definition ww_ec :: "'e ec_hw \<Rightarrow> 'e \<Rightarrow> 'e" where
  "ww_ec hw e = ec (snd (ec_wait_write hw (dev_machine e)))"

definition ww_evs :: "'e ec_hw \<Rightarrow> 'e \<Rightarrow> event list" where
  "ww_evs hw e = trace (snd (ec_wait_write hw (dev_machine e)))"

definition wr_ret :: "'e ec_hw \<Rightarrow> 'e \<Rightarrow> int" where
  "wr_ret hw e = fst (ec_wait_read hw (dev_machine e))"

definition wr_ec :: "'e ec_hw \<Rightarrow> 'e \<Rightarrow> 'e" where
  "wr_ec hw e = ec (snd (ec_wait_read hw (dev_machine e)))"

definition wr_evs :: "'e ec_hw \<Rightarrow> 'e \<Rightarrow> event list" where
  "wr_evs hw e = trace (snd (ec_wait_read hw (dev_machine e)))"

subsection \<open>A scripted transport\<close>

text \<open>
  A test device: it answers each \<^verbatim>\<open>inb\<close>, on whichever port, with the next byte of a
  script and ignores writes and delays. Once the script is used up it shows IBF set and
  OBF clear for ever, as an EC that has stopped responding.
\<close>

definition script_hw :: "u8 list ec_hw" where
  "script_hw =
     \<lparr>hw_inb = (\<lambda>port e. case e of [] \<Rightarrow> (EC_COMMAND_BIT_IBF, []) | v # vs \<Rightarrow> (v, vs)),
      hw_outb = (\<lambda>v port e. e),
      hw_udelay = (\<lambda>us e. e)\<rparr>"

definition script_machine :: "u8 list \<Rightarrow> u8 list machine" where
  "script_machine bytes =
     \<lparr>ec = bytes, trace = [], lock = False, mem = (\<lambda>p. 0),
      dym_tbl = replicate EC_MAX_TBL_NUM \<lparr>device_id = 0, hw_pin_num = 0\<rparr>\<rparr>"

text \<open>A probe in which every call into the kernel succeeds.\<close>

definition env_ok :: probe_env where
  "env_ok =
     \<lparr>data_alloc_ok = True, name_alloc_ok = True, productname_ret = 0, tbl_alloc_ok = True,
      parse_prop_ret = 0\<rparr>"

subsection \<open>A stateful mock EC\<close>

text \<open>
  Modelled from the spec: the EC's firmware is not part of the repository. This is the
  deterministic in-memory mock EC of the spec's testable properties, with the wire
  protocol of the spec's section 4 and of the driver's comments: a command byte selects
  what the next data bytes mean; hardware RAM is read and written by address; a table
  item is selected by its number and answered with that number, or with \<^verbatim>\<open>0xff\<close> when
  the item is not defined; pin and device id of the selected item are read by two further
  commands. After each byte from the host the mock is busy for \<open>m_latency\<close> delays of the
  host: it shows IBF set meanwhile, and OBF set afterwards when it holds an answer. A
  byte written while it is busy is lost.
\<close>

datatype mock_phase = Idle | Ram_read_addr | Ram_write_addr | Ram_write_data u8 | Tbl_item

record mock_ec =
  m_latency :: nat
  m_busy :: nat
  m_phase :: mock_phase
  m_obuf :: "u8 option"
  m_ram :: "u8 \<Rightarrow> u8"
  m_tbl :: "u8 \<Rightarrow> ec_dynamic_table option"
  m_item :: u8

definition mock_status :: "mock_ec \<Rightarrow> u8" where
  "mock_status e =
     (if 0 < m_busy e then EC_COMMAND_BIT_IBF
      else if m_obuf e \<noteq> None then EC_COMMAND_BIT_OBF
      else 0)"

definition mock_command :: "u8 \<Rightarrow> mock_ec \<Rightarrow> mock_ec" where
  "mock_command c e =
     (if c = EC_HW_RAM_READ then e\<lparr>m_phase := Ram_read_addr, m_obuf := None\<rparr>
      else if c = EC_HW_RAM_WRITE then e\<lparr>m_phase := Ram_write_addr, m_obuf := None\<rparr>
      else if c = EC_TBL_WRITE_ITEM then e\<lparr>m_phase := Tbl_item, m_obuf := None\<rparr>
      else if c = EC_TBL_GET_PIN then
        e\<lparr>m_phase := Idle,
          m_obuf := Some (case m_tbl e (m_item e) of None \<Rightarrow> 0xff | Some d \<Rightarrow> hw_pin_num d)\<rparr>
      else if c = EC_TBL_GET_DEVID then
        e\<lparr>m_phase := Idle,
          m_obuf := Some (case m_tbl e (m_item e) of None \<Rightarrow> 0xff | Some d \<Rightarrow> device_id d)\<rparr>
      else e\<lparr>m_phase := Idle, m_obuf := None\<rparr>)"

definition mock_data :: "u8 \<Rightarrow> mock_ec \<Rightarrow> mock_ec" where
  "mock_data v e =
     (case m_phase e of
        Idle \<Rightarrow> e
      | Ram_read_addr \<Rightarrow> e\<lparr>m_phase := Idle, m_obuf := Some (m_ram e v)\<rparr>
      | Ram_write_addr \<Rightarrow> e\<lparr>m_phase := Ram_write_data v\<rparr>
      | Ram_write_data a \<Rightarrow> e\<lparr>m_phase := Idle, m_ram := (m_ram e)(a := v)\<rparr>
      | Tbl_item \<Rightarrow>
          e\<lparr>m_phase := Idle, m_item := v,
            m_obuf := Some (case m_tbl e v of None \<Rightarrow> 0xff | Some d \<Rightarrow> v)\<rparr>)"

definition mock_hw :: "mock_ec ec_hw" where
  "mock_hw =
     \<lparr>hw_inb = (\<lambda>port e.
        if port = EC_COMMAND_PORT then (mock_status e, e)
        else if port = EC_STATUS_PORT then
          (case m_obuf e of None \<Rightarrow> (0, e) | Some v \<Rightarrow> (v, e\<lparr>m_obuf := None\<rparr>))
        else (0xff, e)),
      hw_outb = (\<lambda>v port e.
        if 0 < m_busy e then e
        else if port = EC_COMMAND_PORT then (mock_command v e)\<lparr>m_busy := m_latency e\<rparr>
        else if port = EC_STATUS_PORT then (mock_data v e)\<lparr>m_busy := m_latency e\<rparr>
        else e),
      hw_udelay = (\<lambda>us e. e\<lparr>m_busy := m_busy e - 1\<rparr>)\<rparr>"

text \<open>A mock that answers within the retry budget of the polls.\<close>

definition mock_responsive :: "mock_ec \<Rightarrow> bool" where
  "mock_responsive e \<longleftrightarrow> m_latency e < EC_MAX_TIMEOUT_COUNT \<and> m_busy e < EC_MAX_TIMEOUT_COUNT"

text \<open>A mock at rest: nothing pending, RAM all zero, with the given latency and table.\<close>

definition mock_machine :: "nat \<Rightarrow> (u8 \<Rightarrow> ec_dynamic_table option) \<Rightarrow> mock_ec machine" where
  "mock_machine lat tbl =
     \<lparr>ec = \<lparr>m_latency = lat, m_busy = 0, m_phase = Idle, m_obuf = None, m_ram = (\<lambda>a. 0),
             m_tbl = tbl, m_item = 0\<rparr>,
      trace = [], lock = False, mem = (\<lambda>p. 0),
      dym_tbl = replicate EC_MAX_TBL_NUM \<lparr>device_id = 0, hw_pin_num = 0\<rparr>\<rparr>"

text \<open>
  A table for the mock with items 0, 1 and 3 defined and item 2 not.
\<close>

definition demo_tbl :: "u8 \<Rightarrow> ec_dynamic_table option" where
  "demo_tbl i =
     (if i = 0 then Some \<lparr>device_id = 0x50, hw_pin_num = 4\<rparr>
      else if i = 1 then Some \<lparr>device_id = 0x28, hw_pin_num = 9\<rparr>
      else if i = 3 then Some \<lparr>device_id = 0x74, hw_pin_num = 5\<rparr>
      else None)"

subsection \<open>The operations as calls\<close>

text \<open>
  The functions of the driver that talk to the EC, with their arguments, so that a
  property can be stated once for all of them.
\<close>

datatype ec_op =
    Read_hw_ram u8 ptr
  | Write_hw_ram u8 u8
  | Read_acpi_value u8 ptr
  | Write_acpi_value u8 u8
  | Read_gpio_status u8 ptr
  | Write_gpio_status u8 u8
  | Read_gpio_dir u8 ptr
  | Write_gpio_dir u8 u8
  | Read_ad_value u8 u8
  | Write_hwram_command u8
  | Adv_get_dynamic_tab

fun run_op :: "'e ec_hw \<Rightarrow> ec_op \<Rightarrow> 'e machine \<Rightarrow> (int \<times> 'e machine) option" where
  "run_op hw (Read_hw_ram addr data) s = read_hw_ram hw addr data s"
| "run_op hw (Write_hw_ram addr data) s = write_hw_ram hw addr data s"
| "run_op hw (Read_acpi_value addr pvalue) s = read_acpi_value hw addr pvalue s"
| "run_op hw (Write_acpi_value addr v) s = write_acpi_value hw addr v s"
| "run_op hw (Read_gpio_status pin pvalue) s = read_gpio_status hw pin pvalue s"
| "run_op hw (Write_gpio_status pin v) s = write_gpio_status hw pin v s"
| "run_op hw (Read_gpio_dir pin pvalue) s = read_gpio_dir hw pin pvalue s"
| "run_op hw (Write_gpio_dir pin v) s = write_gpio_dir hw pin v s"
| "run_op hw (Read_ad_value hwpin multi) s = read_ad_value hw hwpin multi s"
| "run_op hw (Write_hwram_command data) s = write_hwram_command hw data s"
| "run_op hw Adv_get_dynamic_tab s = adv_get_dynamic_tab hw s"

text \<open>The pin of an operation that selects a pin first.\<close>

fun selected_pin :: "ec_op \<Rightarrow> u8 option" where
  "selected_pin (Read_gpio_status pin pvalue) = Some pin"
| "selected_pin (Write_gpio_status pin v) = Some pin"
| "selected_pin (Read_gpio_dir pin pvalue) = Some pin"
| "selected_pin (Write_gpio_dir pin v) = Some pin"
| "selected_pin (Read_ad_value hwpin multi) = Some hwpin"
| "selected_pin _ = None"

text \<open>The output pointer of an operation that returns a byte through one.\<close>

fun out_pointer :: "ec_op \<Rightarrow> ptr option" where
  "out_pointer (Read_hw_ram addr data) = Some data"
| "out_pointer (Read_acpi_value addr pvalue) = Some pvalue"
| "out_pointer (Read_gpio_status pin pvalue) = Some pvalue"
| "out_pointer (Read_gpio_dir pin pvalue) = Some pvalue"
| "out_pointer _ = None"

text \<open>The returned value and the table of a run that returned.\<close>

definition op_ret :: "(int \<times> 'e machine) option \<Rightarrow> int option" where
  "op_ret r = map_option fst r"

definition op_tbl :: "(int \<times> 'e machine) option \<Rightarrow> ec_dynamic_table list option" where
  "op_tbl r = map_option (\<lambda>x. dym_tbl (snd x)) r"

definition sentinel :: ec_dynamic_table where
  "sentinel = \<lparr>device_id = 0xff, hw_pin_num = 0xff\<rparr>"

text \<open>
  A table of \<^verbatim>\<open>EC_MAX_TBL_NUM\<close> slots whose first \<open>k\<close> slots hold a pin other than
  \<^verbatim>\<open>0xff\<close> and whose other slots hold the sentinel pair.
\<close>

definition populated_upto :: "nat \<Rightarrow> ec_dynamic_table list \<Rightarrow> bool" where
  "populated_upto k tbl \<longleftrightarrow>
     length tbl = EC_MAX_TBL_NUM \<and> k \<le> EC_MAX_TBL_NUM \<and>
     list_all (\<lambda>d. hw_pin_num d \<noteq> 0xff) (take k tbl) \<and>
     drop k tbl = replicate (EC_MAX_TBL_NUM - k) sentinel"

section \<open>Properties\<close>

subsection \<open>Traces\<close>

lemma new_events_append [simp]: "new_events s (s'\<lparr>trace := trace s @ evs\<rparr>) = evs"
  by (simp add: new_events_def)

lemma status_polls_append [simp]:
  "status_polls (xs @ ys) = status_polls xs + status_polls ys"
  by (simp add: status_polls_def)

lemma poll_events_Suc:
  "poll_events hw e (Suc n) =
     poll_events hw e n @ [Inb EC_COMMAND_PORT (status_at hw e n), Udelay EC_RETRY_UDELAY]"
  by (simp add: poll_events_def)

lemma status_polls_poll_events [simp]: "status_polls (poll_events hw e n) = n"
proof (induction n)
  case 0
  then show ?case by (simp add: poll_events_def status_polls_def)
next
  case (Suc n)
  then show ?case by (simp add: poll_events_Suc) (simp add: status_polls_def)
qed

lemma last_event_simps [simp]:
  "last_event prev [] = prev"
  "last_event prev (e # es) = last_event (Some e) es"
  "last_event prev (xs @ ys) = last_event (last_event prev xs) ys"
  by (auto simp: last_event_def)

subsection \<open>The poll for IBF clear\<close>

text \<open>
  A poll loop run on any machine is the run on the bare device, put back into the
  machine: only the device and the trace change.
\<close>

lemma ec_wait_write_from_frame:
  "ec_wait_write_from hw i s =
     (fst (ec_wait_write_from hw i (dev_machine (ec s))),
      s\<lparr>ec := ec (snd (ec_wait_write_from hw i (dev_machine (ec s)))),
        trace := trace s @ trace (snd (ec_wait_write_from hw i (dev_machine (ec s))))\<rparr>)"
proof -
  have both: "ec t = ec s \<Longrightarrow>
      \<exists>r e evs. ec_wait_write_from hw i s = (r, s\<lparr>ec := e, trace := trace s @ evs\<rparr>) \<and>
        ec_wait_write_from hw i t = (r, t\<lparr>ec := e, trace := trace t @ evs\<rparr>)"
    for t :: "'a machine"
  proof (induction hw i s arbitrary: t rule: ec_wait_write_from.induct)
    case (1 hw i s)
    show ?case
    proof (cases "i < EC_MAX_TIMEOUT_COUNT")
      case False
      then show ?thesis using 1(2)
        by (intro exI [of _ "- ETIMEDOUT"] exI [of _ "ec s"] exI [of _ "[]"])
           (simp add: ec_wait_write_from.simps [of hw i])
    next
      case lt: True
      obtain st e1 where h: "hw_inb hw EC_COMMAND_PORT (ec s) = (st, e1)"
        by (cases "hw_inb hw EC_COMMAND_PORT (ec s)")
      show ?thesis
      proof (cases "st AND EC_COMMAND_BIT_IBF = 0")
        case True
        then show ?thesis using lt h 1(2)
          by (intro exI [of _ 0] exI [of _ e1] exI [of _ "[Inb EC_COMMAND_PORT st]"])
             (simp add: ec_wait_write_from.simps [of hw i] inb_def)
      next
        case False
        let ?s1 = "udelay hw EC_RETRY_UDELAY (snd (inb hw EC_COMMAND_PORT s))"
        let ?t1 = "udelay hw EC_RETRY_UDELAY (snd (inb hw EC_COMMAND_PORT t))"
        have eq: "ec ?t1 = ec ?s1"
          using 1(2) by (simp add: udelay_def inb_def case_prod_beta)
        have inbs: "(st, snd (inb hw EC_COMMAND_PORT s)) = inb hw EC_COMMAND_PORT s"
          using h by (simp add: inb_def)
        from 1(1) [OF lt inbs False eq]
        obtain r e evs where
          "ec_wait_write_from hw (i + 1) ?s1 = (r, ?s1\<lparr>ec := e, trace := trace ?s1 @ evs\<rparr>)"
          "ec_wait_write_from hw (i + 1) ?t1 = (r, ?t1\<lparr>ec := e, trace := trace ?t1 @ evs\<rparr>)"
          using h by (auto simp: inb_def)
        then show ?thesis using lt h 1(2) False
          by (intro exI [of _ r] exI [of _ e]
                exI [of _ "Inb EC_COMMAND_PORT st # Udelay EC_RETRY_UDELAY # evs"])
             (simp add: ec_wait_write_from.simps [of hw i] inb_def udelay_def)
      qed
    qed
  qed
  from both [of "dev_machine (ec s)"] show ?thesis
    by (auto simp: dev_machine_def)
qed

lemma ec_wait_write_frame:
  "ec_wait_write hw s =
     (ww_ret hw (ec s), s\<lparr>ec := ww_ec hw (ec s), trace := trace s @ ww_evs hw (ec s)\<rparr>)"
  unfolding ww_ret_def ww_ec_def ww_evs_def ec_wait_write_def
  by (rule ec_wait_write_from_frame)

lemma ec_wait_write_from_shape:
  "\<exists>evs. trace (snd (ec_wait_write_from hw i s)) = trace s @ evs \<and> list_all is_poll evs \<and>
     (fst (ec_wait_write_from hw i s) = 0 \<and> saw_ibf_clear (last_event None evs) \<or>
      fst (ec_wait_write_from hw i s) = - ETIMEDOUT)"
proof (induction hw i s rule: ec_wait_write_from.induct)
  case (1 hw i s)
  show ?case
  proof (cases "i < EC_MAX_TIMEOUT_COUNT")
    case False
    then show ?thesis
      by (simp add: ec_wait_write_from.simps [of hw i])
  next
    case lt: True
    obtain st s1 where h: "inb hw EC_COMMAND_PORT s = (st, s1)"
      by (cases "inb hw EC_COMMAND_PORT s")
    then have tr: "trace s1 = trace s @ [Inb EC_COMMAND_PORT st]"
      by (auto simp: inb_def split: prod.splits)
    show ?thesis
    proof (cases "st AND EC_COMMAND_BIT_IBF = 0")
      case True
      then show ?thesis using lt h tr
        by (simp add: ec_wait_write_from.simps [of hw i] saw_ibf_clear_def last_event_def)
    next
      case False
      let ?s1 = "udelay hw EC_RETRY_UDELAY s1"
      from 1 [OF lt h [symmetric] False]
      obtain evs where e: "trace (snd (ec_wait_write_from hw (i + 1) ?s1)) = trace ?s1 @ evs"
        "list_all is_poll evs"
        "fst (ec_wait_write_from hw (i + 1) ?s1) = 0 \<and> saw_ibf_clear (last_event None evs) \<or>
         fst (ec_wait_write_from hw (i + 1) ?s1) = - ETIMEDOUT"
        by blast
      have "last_event None (Inb EC_COMMAND_PORT st # Udelay EC_RETRY_UDELAY # evs) =
              last_event None evs \<or> \<not> saw_ibf_clear (last_event None evs)"
        by (auto simp: last_event_def saw_ibf_clear_def)
      with e show ?thesis using lt h tr False
        by (intro exI [of _ "Inb EC_COMMAND_PORT st # Udelay EC_RETRY_UDELAY # evs"])
           (auto simp add: ec_wait_write_from.simps [of hw i] udelay_def)
    qed
  qed
qed

lemma ww_cases: "ww_ret hw e = 0 \<or> ww_ret hw e = - ETIMEDOUT"
  using ec_wait_write_from_shape [of hw 0 "dev_machine e"]
  by (auto simp: ww_ret_def ec_wait_write_def)

lemma ww_evs_poll [simp]: "list_all is_poll (ww_evs hw e)"
  using ec_wait_write_from_shape [of hw 0 "dev_machine e"]
  by (auto simp: ww_evs_def ec_wait_write_def dev_machine_def)

lemma ww_evs_last: "ww_ret hw e = 0 \<Longrightarrow> saw_ibf_clear (last_event prev (ww_evs hw e))"
  using ec_wait_write_from_shape [of hw 0 "dev_machine e"]
  by (auto simp: ww_evs_def ww_ret_def ec_wait_write_def dev_machine_def ETIMEDOUT_def
        last_event_def saw_ibf_clear_def split: if_splits)

lemma ec_wait_write_skip:
  "\<forall>j<n. status_at hw (ec s) j AND EC_COMMAND_BIT_IBF \<noteq> 0 \<Longrightarrow> i + n \<le> EC_MAX_TIMEOUT_COUNT \<Longrightarrow>
   ec_wait_write_from hw i s =
   ec_wait_write_from hw (i + n)
     (s\<lparr>ec := (poll_step hw ^^ n) (ec s), trace := trace s @ poll_events hw (ec s) n\<rparr>)"
proof (induction n)
  case 0
  then show ?case by (simp add: poll_events_def)
next
  case (Suc n)
  let ?s = "s\<lparr>ec := (poll_step hw ^^ n) (ec s), trace := trace s @ poll_events hw (ec s) n\<rparr>"
  have a: "ec_wait_write_from hw i s = ec_wait_write_from hw (i + n) ?s"
    using Suc by simp
  have lt: "i + n < EC_MAX_TIMEOUT_COUNT" using Suc.prems by simp
  have st: "status_at hw (ec s) n AND EC_COMMAND_BIT_IBF \<noteq> 0" using Suc.prems by simp
  have "ec_wait_write_from hw (i + n) ?s = ec_wait_write_from hw (i + Suc n)
     (s\<lparr>ec := (poll_step hw ^^ Suc n) (ec s),
        trace := trace s @ poll_events hw (ec s) (Suc n)\<rparr>)"
    using lt st
    by (subst ec_wait_write_from.simps)
       (simp add: inb_def udelay_def status_at_def poll_step_def poll_events_Suc case_prod_beta)
  with a show ?case by simp
qed

lemma ec_wait_write_timeout:
  assumes "\<forall>k<EC_MAX_TIMEOUT_COUNT. status_at hw (ec s) k AND EC_COMMAND_BIT_IBF \<noteq> 0"
  shows "ec_wait_write hw s =
     (- ETIMEDOUT, s\<lparr>ec := (poll_step hw ^^ EC_MAX_TIMEOUT_COUNT) (ec s),
        trace := trace s @ poll_events hw (ec s) EC_MAX_TIMEOUT_COUNT\<rparr>)"
  unfolding ec_wait_write_def
  by (subst ec_wait_write_skip [where n = EC_MAX_TIMEOUT_COUNT, OF assms])
     (simp_all add: ec_wait_write_from.simps [of _ EC_MAX_TIMEOUT_COUNT])

lemma ec_wait_write_success:
  assumes "k < EC_MAX_TIMEOUT_COUNT"
    and "\<forall>j<k. status_at hw (ec s) j AND EC_COMMAND_BIT_IBF \<noteq> 0"
    and "status_at hw (ec s) k AND EC_COMMAND_BIT_IBF = 0"
  shows "ec_wait_write hw s =
     (0, s\<lparr>ec := snd (hw_inb hw EC_COMMAND_PORT ((poll_step hw ^^ k) (ec s))),
        trace := trace s @ poll_events hw (ec s) k @
          [Inb EC_COMMAND_PORT (status_at hw (ec s) k)]\<rparr>)"
  unfolding ec_wait_write_def
  using assms(1,3)
  by (subst ec_wait_write_skip [where n = k, OF assms(2)])
     (simp_all add: ec_wait_write_from.simps [of _ k] inb_def case_prod_beta status_at_def)

subsection \<open>The poll for OBF set\<close>

lemma ec_wait_read_from_frame:
  "ec_wait_read_from hw i s =
     (fst (ec_wait_read_from hw i (dev_machine (ec s))),
      s\<lparr>ec := ec (snd (ec_wait_read_from hw i (dev_machine (ec s)))),
        trace := trace s @ trace (snd (ec_wait_read_from hw i (dev_machine (ec s))))\<rparr>)"
proof -
  have both: "ec t = ec s \<Longrightarrow>
      \<exists>r e evs. ec_wait_read_from hw i s = (r, s\<lparr>ec := e, trace := trace s @ evs\<rparr>) \<and>
        ec_wait_read_from hw i t = (r, t\<lparr>ec := e, trace := trace t @ evs\<rparr>)"
    for t :: "'a machine"
  proof (induction hw i s arbitrary: t rule: ec_wait_read_from.induct)
    case (1 hw i s)
    show ?case
    proof (cases "i < EC_MAX_TIMEOUT_COUNT")
      case False
      then show ?thesis using 1(2)
        by (intro exI [of _ "- ETIMEDOUT"] exI [of _ "ec s"] exI [of _ "[]"])
           (simp add: ec_wait_read_from.simps [of hw i])
    next
      case lt: True
      obtain st e1 where h: "hw_inb hw EC_COMMAND_PORT (ec s) = (st, e1)"
        by (cases "hw_inb hw EC_COMMAND_PORT (ec s)")
      show ?thesis
      proof (cases "st AND EC_COMMAND_BIT_OBF \<noteq> 0")
        case True
        then show ?thesis using lt h 1(2)
          by (intro exI [of _ 0] exI [of _ e1] exI [of _ "[Inb EC_COMMAND_PORT st]"])
             (simp add: ec_wait_read_from.simps [of hw i] inb_def)
      next
        case False
        let ?s1 = "udelay hw EC_RETRY_UDELAY (snd (inb hw EC_COMMAND_PORT s))"
        let ?t1 = "udelay hw EC_RETRY_UDELAY (snd (inb hw EC_COMMAND_PORT t))"
        have eq: "ec ?t1 = ec ?s1"
          using 1(2) by (simp add: udelay_def inb_def case_prod_beta)
        have inbs: "(st, snd (inb hw EC_COMMAND_PORT s)) = inb hw EC_COMMAND_PORT s"
          using h by (simp add: inb_def)
        from 1(1) [OF lt inbs False eq]
        obtain r e evs where
          "ec_wait_read_from hw (i + 1) ?s1 = (r, ?s1\<lparr>ec := e, trace := trace ?s1 @ evs\<rparr>)"
          "ec_wait_read_from hw (i + 1) ?t1 = (r, ?t1\<lparr>ec := e, trace := trace ?t1 @ evs\<rparr>)"
          using h by (auto simp: inb_def)
        then show ?thesis using lt h 1(2) False
          by (intro exI [of _ r] exI [of _ e]
                exI [of _ "Inb EC_COMMAND_PORT st # Udelay EC_RETRY_UDELAY # evs"])
             (simp add: ec_wait_read_from.simps [of hw i] inb_def udelay_def)
      qed
    qed
  qed
  from both [of "dev_machine (ec s)"] show ?thesis
    by (auto simp: dev_machine_def)
qed

lemma ec_wait_read_frame:
  "ec_wait_read hw s =
     (wr_ret hw (ec s), s\<lparr>ec := wr_ec hw (ec s), trace := trace s @ wr_evs hw (ec s)\<rparr>)"
  unfolding wr_ret_def wr_ec_def wr_evs_def ec_wait_read_def
  by (rule ec_wait_read_from_frame)

lemma ec_wait_read_from_shape:
  "\<exists>evs. trace (snd (ec_wait_read_from hw i s)) = trace s @ evs \<and> list_all is_poll evs \<and>
     (fst (ec_wait_read_from hw i s) = 0 \<and> saw_obf_set (last_event None evs) \<or>
      fst (ec_wait_read_from hw i s) = - ETIMEDOUT)"
proof (induction hw i s rule: ec_wait_read_from.induct)
  case (1 hw i s)
  show ?case
  proof (cases "i < EC_MAX_TIMEOUT_COUNT")
    case False
    then show ?thesis
      by (simp add: ec_wait_read_from.simps [of hw i])
  next
    case lt: True
    obtain st s1 where h: "inb hw EC_COMMAND_PORT s = (st, s1)"
      by (cases "inb hw EC_COMMAND_PORT s")
    then have tr: "trace s1 = trace s @ [Inb EC_COMMAND_PORT st]"
      by (auto simp: inb_def split: prod.splits)
    show ?thesis
    proof (cases "st AND EC_COMMAND_BIT_OBF \<noteq> 0")
      case True
      then show ?thesis using lt h tr
        by (simp add: ec_wait_read_from.simps [of hw i] saw_obf_set_def last_event_def)
    next
      case False
      let ?s1 = "udelay hw EC_RETRY_UDELAY s1"
      from 1 [OF lt h [symmetric] False]
      obtain evs where e: "trace (snd (ec_wait_read_from hw (i + 1) ?s1)) = trace ?s1 @ evs"
        "list_all is_poll evs"
        "fst (ec_wait_read_from hw (i + 1) ?s1) = 0 \<and> saw_obf_set (last_event None evs) \<or>
         fst (ec_wait_read_from hw (i + 1) ?s1) = - ETIMEDOUT"
        by blast
      have "last_event None (Inb EC_COMMAND_PORT st # Udelay EC_RETRY_UDELAY # evs) =
              last_event None evs \<or> \<not> saw_obf_set (last_event None evs)"
        by (auto simp: last_event_def saw_obf_set_def)
      with e show ?thesis using lt h tr False
        by (intro exI [of _ "Inb EC_COMMAND_PORT st # Udelay EC_RETRY_UDELAY # evs"])
           (auto simp add: ec_wait_read_from.simps [of hw i] udelay_def)
    qed
  qed
qed

lemma wr_cases: "wr_ret hw e = 0 \<or> wr_ret hw e = - ETIMEDOUT"
  using ec_wait_read_from_shape [of hw 0 "dev_machine e"]
  by (auto simp: wr_ret_def ec_wait_read_def)

lemma wr_evs_poll [simp]: "list_all is_poll (wr_evs hw e)"
  using ec_wait_read_from_shape [of hw 0 "dev_machine e"]
  by (auto simp: wr_evs_def ec_wait_read_def dev_machine_def)

lemma wr_evs_last: "wr_ret hw e = 0 \<Longrightarrow> saw_obf_set (last_event prev (wr_evs hw e))"
  using ec_wait_read_from_shape [of hw 0 "dev_machine e"]
  by (auto simp: wr_evs_def wr_ret_def ec_wait_read_def dev_machine_def ETIMEDOUT_def
        last_event_def saw_obf_set_def split: if_splits)

lemma ec_wait_read_skip:
  "\<forall>j<n. status_at hw (ec s) j AND EC_COMMAND_BIT_OBF = 0 \<Longrightarrow> i + n \<le> EC_MAX_TIMEOUT_COUNT \<Longrightarrow>
   ec_wait_read_from hw i s =
   ec_wait_read_from hw (i + n)
     (s\<lparr>ec := (poll_step hw ^^ n) (ec s), trace := trace s @ poll_events hw (ec s) n\<rparr>)"
proof (induction n)
  case 0
  then show ?case by (simp add: poll_events_def)
next
  case (Suc n)
  let ?s = "s\<lparr>ec := (poll_step hw ^^ n) (ec s), trace := trace s @ poll_events hw (ec s) n\<rparr>"
  have a: "ec_wait_read_from hw i s = ec_wait_read_from hw (i + n) ?s"
    using Suc by simp
  have lt: "i + n < EC_MAX_TIMEOUT_COUNT" using Suc.prems by simp
  have st: "status_at hw (ec s) n AND EC_COMMAND_BIT_OBF = 0" using Suc.prems by simp
  have "ec_wait_read_from hw (i + n) ?s = ec_wait_read_from hw (i + Suc n)
     (s\<lparr>ec := (poll_step hw ^^ Suc n) (ec s),
        trace := trace s @ poll_events hw (ec s) (Suc n)\<rparr>)"
    using lt st
    by (subst ec_wait_read_from.simps)
       (simp add: inb_def udelay_def status_at_def poll_step_def poll_events_Suc case_prod_beta)
  with a show ?case by simp
qed

lemma ec_wait_read_timeout:
  assumes "\<forall>k<EC_MAX_TIMEOUT_COUNT. status_at hw (ec s) k AND EC_COMMAND_BIT_OBF = 0"
  shows "ec_wait_read hw s =
     (- ETIMEDOUT, s\<lparr>ec := (poll_step hw ^^ EC_MAX_TIMEOUT_COUNT) (ec s),
        trace := trace s @ poll_events hw (ec s) EC_MAX_TIMEOUT_COUNT\<rparr>)"
  unfolding ec_wait_read_def
  by (subst ec_wait_read_skip [where n = EC_MAX_TIMEOUT_COUNT, OF assms])
     (simp_all add: ec_wait_read_from.simps [of _ EC_MAX_TIMEOUT_COUNT])

lemma ec_wait_read_success:
  assumes "k < EC_MAX_TIMEOUT_COUNT"
    and "\<forall>j<k. status_at hw (ec s) j AND EC_COMMAND_BIT_OBF = 0"
    and "status_at hw (ec s) k AND EC_COMMAND_BIT_OBF \<noteq> 0"
  shows "ec_wait_read hw s =
     (0, s\<lparr>ec := snd (hw_inb hw EC_COMMAND_PORT ((poll_step hw ^^ k) (ec s))),
        trace := trace s @ poll_events hw (ec s) k @
          [Inb EC_COMMAND_PORT (status_at hw (ec s) k)]\<rparr>)"
  unfolding ec_wait_read_def
  using assms(1,3)
  by (subst ec_wait_read_skip [where n = k, OF assms(2)])
     (simp_all add: ec_wait_read_from.simps [of _ k] inb_def case_prod_beta status_at_def)

subsection \<open>Running an operation symbolically\<close>

text \<open>
  With the polls put in terms of the device, unfolding an operation gives its result on
  every path, with the trace written out.
\<close>

lemmas run_defs = mutex_lock_def mutex_unlock_def goto_error_def outb_def inb_def store_def
  Let_def case_prod_beta ec_wait_write_frame ec_wait_read_frame

lemmas op_defs = read_hw_ram_def write_hw_ram_def read_acpi_value_def write_acpi_value_def
  read_gpio_status_def write_gpio_status_def read_gpio_dir_def write_gpio_dir_def
  read_ad_value_def write_hwram_command_def

lemma ports_distinct [simp]: "EC_COMMAND_PORT \<noteq> EC_STATUS_PORT" "EC_STATUS_PORT \<noteq> EC_COMMAND_PORT"
  by (simp_all add: EC_COMMAND_PORT_def EC_STATUS_PORT_def)

lemma ETIMEDOUT_pos [simp]: "ETIMEDOUT \<noteq> 0" "ETIMEDOUT \<noteq> 1" "0 < ETIMEDOUT"
  by (simp_all add: ETIMEDOUT_def)

lemma data_reads_simps [simp]:
  "data_reads [] = []"
  "data_reads (Inb port v # es) = (if port = EC_STATUS_PORT then v # data_reads es else data_reads es)"
  "data_reads (Outb v port # es) = data_reads es"
  "data_reads (MutexLock # es) = data_reads es"
  "data_reads (MutexUnlock # es) = data_reads es"
  "data_reads (Udelay us # es) = data_reads es"
  "data_reads (Store p v # es) = data_reads es"
  "data_reads (xs @ ys) = data_reads xs @ data_reads ys"
  by (simp_all add: data_reads_def map_filter_def)

lemma data_writes_simps [simp]:
  "data_writes [] = []"
  "data_writes (Outb v port # es) = (if port = EC_STATUS_PORT then v # data_writes es else data_writes es)"
  "data_writes (Inb port v # es) = data_writes es"
  "data_writes (MutexLock # es) = data_writes es"
  "data_writes (MutexUnlock # es) = data_writes es"
  "data_writes (Udelay us # es) = data_writes es"
  "data_writes (Store p v # es) = data_writes es"
  "data_writes (xs @ ys) = data_writes xs @ data_writes ys"
  by (simp_all add: data_writes_def map_filter_def)

lemma polls_quiet:
  assumes "list_all is_poll evs"
  shows "filter is_mutex_event evs = []" "filter is_store evs = []"
    "data_reads evs = []" "data_writes evs = []"
    "after_data_read (evs @ ys) = after_data_read ys"
  using assms
proof (induction evs)
  case Nil
  {
    case 1 show ?case by simp
  next
    case 2 show ?case by simp
  next
    case 3 show ?case by simp
  next
    case 4 show ?case by simp
  next
    case 5 show ?case by simp
  }
next
  case (Cons e evs)
  {
    case 1 then show ?case using Cons.IH(1) by (cases e) auto
  next
    case 2 then show ?case using Cons.IH(2) by (cases e) auto
  next
    case 3 then show ?case using Cons.IH(3) by (cases e) auto
  next
    case 4 then show ?case using Cons.IH(4) by (cases e) auto
  next
    case 5 then show ?case using Cons.IH(5) by (cases e) auto
  }
qed

lemmas ww_quiet [simp] = polls_quiet [OF ww_evs_poll]
lemmas wr_quiet [simp] = polls_quiet [OF wr_evs_poll]

lemma cases_ret: "ww_ret hw e \<noteq> 0 \<Longrightarrow> ww_ret hw e = - ETIMEDOUT" "wr_ret hw e \<noteq> 0 \<Longrightarrow> wr_ret hw e = - ETIMEDOUT"
  using ww_cases [of hw e] wr_cases [of hw e] by auto

subsection \<open>The handshake over a trace\<close>

lemma handshake_from_append:
  "handshake_from prev (xs @ ys) =
     (handshake_from prev xs \<and> handshake_from (last_event prev xs) ys)"
  by (induction xs arbitrary: prev) (auto simp: last_event_def)

lemma handshake_from_polls: "list_all is_poll evs \<Longrightarrow> handshake_from prev evs"
proof (induction evs arbitrary: prev)
  case Nil
  then show ?case by simp
next
  case (Cons e evs)
  then show ?case by (cases e) auto
qed

lemmas hs_simps = handshake_ok_def handshake_from_append handshake_from_polls ww_evs_last wr_evs_last


subsection \<open>The operations without a loop\<close>

lemma straight_op_blocks:
  assumes "c \<noteq> Adv_get_dynamic_tab"
  shows "run_op hw c s = None \<longleftrightarrow> lock s"
  using assms
  by (cases c) (simp_all add: op_defs mutex_lock_def)

lemma straight_op_lock:
  assumes "c \<noteq> Adv_get_dynamic_tab" "run_op hw c s = Some (ret, s')"
  shows "\<not> lock s \<and> \<not> lock s' \<and> trace s' = trace s @ new_events s s' \<and>
       filter is_mutex_event (new_events s s') = [MutexLock, MutexUnlock] \<and>
       last (new_events s s') = MutexUnlock"
  using assms
  by (cases c) (auto simp: op_defs run_defs split: if_splits)


lemma straight_op_handshake:
  assumes "c \<noteq> Adv_get_dynamic_tab" "run_op hw c s = Some (ret, s')"
  shows "trace s' = trace s @ new_events s s' \<and> handshake_ok (new_events s s')"
  using assms
  by (cases c) (auto simp: op_defs run_defs hs_simps split: if_splits)

subsection \<open>The table scan\<close>

lemma tbl_slot_quiet:
  "\<exists>evs. trace (snd (tbl_slot hw i s)) = trace s @ evs \<and> (\<forall>prev. handshake_from prev evs) \<and>
     filter is_mutex_event evs = []"
  "lock (snd (tbl_slot hw i s)) = lock s"
  unfolding tbl_slot_def
  by (auto simp: run_defs hs_simps split: if_splits)

lemma tbl_scan_quiet:
  "(\<exists>evs. trace (snd (tbl_scan_from hw i s)) = trace s @ evs \<and> (\<forall>prev. handshake_from prev evs) \<and>
     filter is_mutex_event evs = []) \<and>
   lock (snd (tbl_scan_from hw i s)) = lock s"
proof (induction hw i s rule: tbl_scan_from.induct)
  case (1 hw i s)
  show ?case
  proof (cases "i < EC_MAX_TBL_NUM")
    case False
    then show ?thesis by (simp add: tbl_scan_from.simps [of hw i])
  next
    case lt: True
    obtain x s1 where h: "tbl_slot hw i s = (x, s1)" by (cases "tbl_slot hw i s")
    from tbl_slot_quiet [of hw i s] h obtain evs where
      e: "trace s1 = trace s @ evs" "\<forall>prev. handshake_from prev evs"
        "filter is_mutex_event evs = []" "lock s1 = lock s"
      by auto
    show ?thesis
    proof (cases x)
      case Next_slot
      from 1 [OF lt h [symmetric] Next_slot] obtain evs' where
        "trace (snd (tbl_scan_from hw (i + 1) s1)) = trace s1 @ evs'"
        "\<forall>prev. handshake_from prev evs'" "filter is_mutex_event evs' = []"
        "lock (snd (tbl_scan_from hw (i + 1) s1)) = lock s1"
        by auto
      with e Next_slot lt h show ?thesis
        by (simp add: tbl_scan_from.simps [of hw i] handshake_from_append)
    next
      case Goto_pass
      with e lt h show ?thesis by (simp add: tbl_scan_from.simps [of hw i])
    next
      case (Goto_error r)
      with e lt h show ?thesis by (simp add: tbl_scan_from.simps [of hw i])
    qed
  qed
qed

lemma adv_get_dynamic_tab_blocks: "adv_get_dynamic_tab hw s = None \<longleftrightarrow> lock s"
  by (simp add: adv_get_dynamic_tab_def mutex_lock_def)

lemma adv_get_dynamic_tab_quiet:
  assumes "adv_get_dynamic_tab hw s = Some (ret, s')"
  shows "\<not> lock s \<and> \<not> lock s' \<and> trace s' = trace s @ new_events s s' \<and>
    handshake_ok (new_events s s') \<and>
    filter is_mutex_event (new_events s s') = [MutexLock, MutexUnlock] \<and>
    last (new_events s s') = MutexUnlock"
proof -
  let ?s1 = "s\<lparr>lock := True, trace := trace s @ [MutexLock], dym_tbl := tbl_reset (dym_tbl s)\<rparr>"
  from tbl_scan_quiet [of hw 0 ?s1] obtain evs where
    e: "trace (snd (tbl_scan_from hw 0 ?s1)) = trace ?s1 @ evs" "\<forall>prev. handshake_from prev evs"
      "filter is_mutex_event evs = []"
    by blast
  from assms have s': "\<not> lock s" "s' = mutex_unlock (snd (tbl_scan_from hw 0 ?s1))"
    by (auto simp: adv_get_dynamic_tab_def mutex_lock_def Let_def case_prod_beta split: if_splits)
  with e have "trace s' = trace s @ MutexLock # evs @ [MutexUnlock]"
    by (simp add: mutex_unlock_def)
  with e(2,3) s' show ?thesis
    by (simp add: new_events_def handshake_ok_def handshake_from_append mutex_unlock_def)
qed


subsection \<open>The scripted transport once its script is used up\<close>

lemma script_dead [simp]: "(poll_step script_hw ^^ k) [] = []"
  by (induction k) (simp_all add: poll_step_def script_hw_def)

lemma status_at_dead [simp]: "status_at script_hw [] k = EC_COMMAND_BIT_IBF"
  by (simp add: status_at_def) (simp add: script_hw_def)

lemma script_status_head [simp]: "status_at script_hw (v # vs) 0 = v"
  by (simp add: status_at_def script_hw_def)

lemma script_ww_ready:
  assumes "v AND EC_COMMAND_BIT_IBF = 0"
  shows "ww_ret script_hw (v # vs) = 0" "ww_ec script_hw (v # vs) = vs"
    "ww_evs script_hw (v # vs) = [Inb EC_COMMAND_PORT v]"
  using ec_wait_write_success [of 0 script_hw "dev_machine (v # vs)"] assms
  by (simp_all add: ww_ret_def ww_ec_def ww_evs_def dev_machine_def EC_MAX_TIMEOUT_COUNT_def
        poll_events_def)
     (simp_all add: script_hw_def)

lemma script_wr_ready:
  assumes "v AND EC_COMMAND_BIT_OBF \<noteq> 0"
  shows "wr_ret script_hw (v # vs) = 0" "wr_ec script_hw (v # vs) = vs"
    "wr_evs script_hw (v # vs) = [Inb EC_COMMAND_PORT v]"
  using ec_wait_read_success [of 0 script_hw "dev_machine (v # vs)"] assms
  by (simp_all add: wr_ret_def wr_ec_def wr_evs_def dev_machine_def EC_MAX_TIMEOUT_COUNT_def
        poll_events_def)
     (simp_all add: script_hw_def)

lemma script_ww_dead:
  "ww_ret script_hw [] = - ETIMEDOUT" "ww_ec script_hw [] = []"
  "ww_evs script_hw [] = poll_events script_hw [] EC_MAX_TIMEOUT_COUNT"
  using ec_wait_write_timeout [of script_hw "dev_machine []"]
  by (simp_all add: ww_ret_def ww_ec_def ww_evs_def dev_machine_def EC_COMMAND_BIT_IBF_def)

lemma script_wr_dead:
  "wr_ret script_hw [] = - ETIMEDOUT" "wr_ec script_hw [] = []"
  "wr_evs script_hw [] = poll_events script_hw [] EC_MAX_TIMEOUT_COUNT"
  using ec_wait_read_timeout [of script_hw "dev_machine []"]
  by (simp_all add: wr_ret_def wr_ec_def wr_evs_def dev_machine_def EC_COMMAND_BIT_IBF_def
        EC_COMMAND_BIT_OBF_def)

lemma script_io [simp]:
  "hw_inb script_hw port (v # vs) = (v, vs)"
  "hw_inb script_hw port [] = (EC_COMMAND_BIT_IBF, [])"
  "hw_outb script_hw v port e = e"
  "hw_udelay script_hw us e = e"
  by (simp_all add: script_hw_def)

lemmas script_eval = script_ww_ready script_wr_ready script_ww_dead script_wr_dead
  script_machine_def EC_COMMAND_BIT_IBF_def EC_COMMAND_BIT_OBF_def

section \<open>The retry budget of the poll for OBF\<close>

text \<open>
  Claim C5. Polls are counted from 0, so poll number \<open>k\<close> is the \<open>(k + 1)\<close>-th read of the
  command port. On any device and from any state: when none of the first
  \<^verbatim>\<open>EC_MAX_TIMEOUT_COUNT\<close> polls shows OBF set, \<open>ec_wait_read\<close> returns \<^verbatim>\<open>-ETIMEDOUT\<close>
  and has read the command port exactly \<^verbatim>\<open>EC_MAX_TIMEOUT_COUNT\<close> (5000) times; when
  poll number \<open>k\<close>, within the budget, is the first that shows OBF set, it returns 0, has
  read the command port exactly \<open>k + 1\<close> times, and that successful read is the last
  event of the trace. The trace is only ever extended.
\<close>

theorem ec_wait_read_polls:
  "((\<forall>j<EC_MAX_TIMEOUT_COUNT. status_at hw (ec s) j AND EC_COMMAND_BIT_OBF = 0) \<longrightarrow>
      fst (ec_wait_read hw s) = - ETIMEDOUT \<and>
      status_polls (new_events s (snd (ec_wait_read hw s))) = EC_MAX_TIMEOUT_COUNT) \<and>
   (k < EC_MAX_TIMEOUT_COUNT \<and> (\<forall>j<k. status_at hw (ec s) j AND EC_COMMAND_BIT_OBF = 0) \<and>
    status_at hw (ec s) k AND EC_COMMAND_BIT_OBF \<noteq> 0 \<longrightarrow>
      fst (ec_wait_read hw s) = 0 \<and>
      status_polls (new_events s (snd (ec_wait_read hw s))) = k + 1 \<and>
      last (trace (snd (ec_wait_read hw s))) = Inb EC_COMMAND_PORT (status_at hw (ec s) k)) \<and>
   trace (snd (ec_wait_read hw s)) = trace s @ new_events s (snd (ec_wait_read hw s))"
proof (intro conjI impI)
  assume "\<forall>j<EC_MAX_TIMEOUT_COUNT. status_at hw (ec s) j AND EC_COMMAND_BIT_OBF = 0"
  from ec_wait_read_timeout [OF this]
  show "fst (ec_wait_read hw s) = - ETIMEDOUT"
    and "status_polls (new_events s (snd (ec_wait_read hw s))) = EC_MAX_TIMEOUT_COUNT"
    by simp_all
next
  assume "k < EC_MAX_TIMEOUT_COUNT \<and> (\<forall>j<k. status_at hw (ec s) j AND EC_COMMAND_BIT_OBF = 0) \<and>
    status_at hw (ec s) k AND EC_COMMAND_BIT_OBF \<noteq> 0"
  then have eq: "ec_wait_read hw s =
     (0, s\<lparr>ec := snd (hw_inb hw EC_COMMAND_PORT ((poll_step hw ^^ k) (ec s))),
        trace := trace s @ poll_events hw (ec s) k @
          [Inb EC_COMMAND_PORT (status_at hw (ec s) k)]\<rparr>)"
    by (intro ec_wait_read_success) simp_all
  show "fst (ec_wait_read hw s) = 0"
    and "status_polls (new_events s (snd (ec_wait_read hw s))) = k + 1"
    and "last (trace (snd (ec_wait_read hw s))) = Inb EC_COMMAND_PORT (status_at hw (ec s) k)"
    by (simp_all add: eq) (simp add: status_polls_def)
next
  show "trace (snd (ec_wait_read hw s)) = trace s @ new_events s (snd (ec_wait_read hw s))"
    by (simp add: ec_wait_read_frame)
qed

theorem ec_wait_read_polls_witness:
  "fst (ec_wait_read script_hw (script_machine [])) = - ETIMEDOUT \<and>
   status_polls (new_events (script_machine []) (snd (ec_wait_read script_hw (script_machine []))))
     = 5000 \<and>
   fst (ec_wait_read script_hw (script_machine [0, 2, 1])) = 0 \<and>
   status_polls (new_events (script_machine [0, 2, 1])
     (snd (ec_wait_read script_hw (script_machine [0, 2, 1])))) = 3 \<and>
   last (trace (snd (ec_wait_read script_hw (script_machine [0, 2, 1])))) = Inb EC_COMMAND_PORT 1"
proof -
  have dead: "\<forall>j<EC_MAX_TIMEOUT_COUNT.
      status_at script_hw (ec (script_machine [])) j AND EC_COMMAND_BIT_OBF = 0"
    by (simp add: script_machine_def EC_COMMAND_BIT_IBF_def EC_COMMAND_BIT_OBF_def)
  have st: "status_at script_hw [0, 2, 1] 0 = 0" "status_at script_hw [0, 2, 1] 1 = 2"
    "status_at script_hw [0, 2, 1] 2 = 1"
    by (simp_all add: status_at_def poll_step_def script_hw_def numeral_2_eq_2)
  have alive: "(2::nat) < EC_MAX_TIMEOUT_COUNT \<and>
      (\<forall>j<2. status_at script_hw (ec (script_machine [0, 2, 1])) j AND EC_COMMAND_BIT_OBF = 0) \<and>
      status_at script_hw (ec (script_machine [0, 2, 1])) 2 AND EC_COMMAND_BIT_OBF \<noteq> 0"
    using st
    by (auto simp add: script_machine_def EC_COMMAND_BIT_OBF_def EC_MAX_TIMEOUT_COUNT_def less_Suc_eq numeral_2_eq_2)
  from ec_wait_read_polls [of script_hw "script_machine []" 0] dead
  have a: "fst (ec_wait_read script_hw (script_machine [])) = - ETIMEDOUT \<and>
      status_polls (new_events (script_machine []) (snd (ec_wait_read script_hw (script_machine []))))
        = EC_MAX_TIMEOUT_COUNT"
    by blast
  from ec_wait_read_polls [of script_hw "script_machine [0, 2, 1]" 2] alive
  have b: "fst (ec_wait_read script_hw (script_machine [0, 2, 1])) = 0 \<and>
      status_polls (new_events (script_machine [0, 2, 1])
        (snd (ec_wait_read script_hw (script_machine [0, 2, 1])))) = 2 + 1 \<and>
      last (trace (snd (ec_wait_read script_hw (script_machine [0, 2, 1])))) =
        Inb EC_COMMAND_PORT (status_at script_hw (ec (script_machine [0, 2, 1])) 2)"
    by blast
  have "status_at script_hw (ec (script_machine [0, 2, 1])) 2 = 1"
    using st by (simp add: script_machine_def)
  with a b show ?thesis
    by (simp add: EC_MAX_TIMEOUT_COUNT_def)
qed


section \<open>The mutex\<close>

text \<open>
  Claim C1. For each of the eleven operations, on any device: the call does not return
  exactly when the mutex is already held at entry (it sleeps in \<^verbatim>\<open>mutex_lock\<close>); when
  it returns, whatever it returns (0, \<^verbatim>\<open>-ETIMEDOUT\<close> or -1), the mutex was free at
  entry and is free again, the events it added on the mutex are one \<open>MutexLock\<close> followed
  by one \<open>MutexUnlock\<close>, and the release is the last thing it did.
\<close>

theorem lock_released:
  "(run_op hw c s = None \<longleftrightarrow> lock s) \<and>
   (run_op hw c s = Some (ret, s') \<longrightarrow>
      \<not> lock s \<and> lock s' = lock s \<and> trace s' = trace s @ new_events s s' \<and>
      filter is_mutex_event (new_events s s') = [MutexLock, MutexUnlock] \<and>
      last (new_events s s') = MutexUnlock)"
proof (cases "c = Adv_get_dynamic_tab")
  case True
  then show ?thesis
    using adv_get_dynamic_tab_blocks [of hw s] adv_get_dynamic_tab_quiet [of hw s ret s']
    by auto
next
  case False
  then show ?thesis
    using straight_op_blocks [of c hw s] straight_op_lock [of c hw s ret s']
    by auto
qed

theorem lock_released_witness:
  "run_op script_hw (Read_gpio_status 9 0) ((script_machine [0, 0, 1, 0xff])\<lparr>lock := True\<rparr>) = None \<and>
   run_op script_hw (Read_gpio_status 9 0) (script_machine [0, 0, 1, 0xff]) =
     Some (- 1, (script_machine [])\<lparr>trace :=
       [MutexLock, Inb EC_COMMAND_PORT 0, Outb EC_GPIO_INDEX_WRITE EC_COMMAND_PORT,
        Inb EC_COMMAND_PORT 0, Outb 9 EC_STATUS_PORT, Inb EC_COMMAND_PORT 1,
        Inb EC_STATUS_PORT 0xff, MutexUnlock]\<rparr>) \<and>
   \<not> lock (script_machine [0, 0, 1, 0xff]) \<and>
   filter is_mutex_event
     [MutexLock, Inb EC_COMMAND_PORT 0, Outb EC_GPIO_INDEX_WRITE EC_COMMAND_PORT,
      Inb EC_COMMAND_PORT 0, Outb 9 EC_STATUS_PORT, Inb EC_COMMAND_PORT 1,
      Inb EC_STATUS_PORT 0xff, MutexUnlock] = [MutexLock, MutexUnlock]"
proof -
  let ?s = "script_machine [0, 0, 1, 0xff]"
  let ?s' = "(script_machine [])\<lparr>trace :=
       [MutexLock, Inb EC_COMMAND_PORT 0, Outb EC_GPIO_INDEX_WRITE EC_COMMAND_PORT,
        Inb EC_COMMAND_PORT 0, Outb 9 EC_STATUS_PORT, Inb EC_COMMAND_PORT 1,
        Inb EC_STATUS_PORT 0xff, MutexUnlock]\<rparr>"
  have held: "lock (?s\<lparr>lock := True\<rparr>)" by simp
  have run: "run_op script_hw (Read_gpio_status 9 0) ?s = Some (- 1, ?s')"
    by (simp add: read_gpio_status_def run_defs script_eval)
  from lock_released [of script_hw "Read_gpio_status 9 0" "?s\<lparr>lock := True\<rparr>" 0 ?s] held
  have a: "run_op script_hw (Read_gpio_status 9 0) (?s\<lparr>lock := True\<rparr>) = None"
    by blast
  from lock_released [of script_hw "Read_gpio_status 9 0" ?s "- 1" ?s'] run
  have b: "\<not> lock ?s \<and> filter is_mutex_event (new_events ?s ?s') = [MutexLock, MutexUnlock]"
    by blast
  from a run b show ?thesis
    by (simp add: new_events_def script_machine_def)
qed

section \<open>The handshake\<close>

text \<open>
  Claim C7. In the events that any of the eleven operations adds to the trace, on any
  device and on every path, each \<^verbatim>\<open>outb\<close> stands right after a read of the command port
  that showed IBF clear, and each \<^verbatim>\<open>inb\<close> of the data port stands right after a read of
  the command port that showed OBF set.
\<close>

theorem handshake_respected:
  "run_op hw c s = Some (ret, s') \<Longrightarrow>
     trace s' = trace s @ new_events s s' \<and> handshake_ok (new_events s s')"
  using straight_op_handshake [of c hw s ret s'] adv_get_dynamic_tab_quiet [of hw s ret s']
  by (cases "c = Adv_get_dynamic_tab") auto

theorem handshake_respected_witness:
  "run_op script_hw (Read_hw_ram 0x10 0) (script_machine [0, 0, 1, 0x42]) =
     Some (0, (script_machine [])\<lparr>trace :=
       [MutexLock, Inb EC_COMMAND_PORT 0, Outb EC_HW_RAM_READ EC_COMMAND_PORT,
        Inb EC_COMMAND_PORT 0, Outb 0x10 EC_STATUS_PORT, Inb EC_COMMAND_PORT 1,
        Inb EC_STATUS_PORT 0x42, Store 0 0x42, MutexUnlock],
       mem := (\<lambda>p. 0)(0 := 0x42)\<rparr>) \<and>
   handshake_ok
     [MutexLock, Inb EC_COMMAND_PORT 0, Outb EC_HW_RAM_READ EC_COMMAND_PORT,
      Inb EC_COMMAND_PORT 0, Outb 0x10 EC_STATUS_PORT, Inb EC_COMMAND_PORT 1,
      Inb EC_STATUS_PORT 0x42, Store 0 0x42, MutexUnlock]"
proof -
  let ?s = "script_machine [0, 0, 1, 0x42]"
  let ?s' = "(script_machine [])\<lparr>trace :=
       [MutexLock, Inb EC_COMMAND_PORT 0, Outb EC_HW_RAM_READ EC_COMMAND_PORT,
        Inb EC_COMMAND_PORT 0, Outb 0x10 EC_STATUS_PORT, Inb EC_COMMAND_PORT 1,
        Inb EC_STATUS_PORT 0x42, Store 0 0x42, MutexUnlock],
       mem := (\<lambda>p. 0)(0 := 0x42)\<rparr>"
  have run: "run_op script_hw (Read_hw_ram 0x10 0) ?s = Some (0, ?s')"
    by (simp add: read_hw_ram_def run_defs script_eval)
  from handshake_respected [OF run] run show ?thesis
    by (simp add: new_events_def script_machine_def)
qed

section \<open>Output pointers\<close>

text \<open>
  Claim C10. For the four operations that return a byte through a pointer
  (\<open>read_hw_ram\<close>, \<open>read_acpi_value\<close>, \<open>read_gpio_status\<close>, \<open>read_gpio_dir\<close>), on any
  device: the call returns 0, \<^verbatim>\<open>-ETIMEDOUT\<close> or -1; when it returns an error, nothing was
  stored through any pointer and the callers' memory is as before; when it returns 0,
  exactly one store happened, through the given pointer, of the last byte read from the
  data port.
\<close>

theorem output_written_on_success_only:
  "out_pointer c = Some p \<Longrightarrow> run_op hw c s = Some (ret, s') \<Longrightarrow>
     (ret = 0 \<or> ret = - ETIMEDOUT \<or> ret = - 1) \<and>
     (ret \<noteq> 0 \<longrightarrow> mem s' = mem s \<and> filter is_store (new_events s s') = []) \<and>
     (ret = 0 \<longrightarrow>
        filter is_store (new_events s s') = [Store p (last (data_reads (new_events s s')))] \<and>
        mem s' = (mem s)(p := last (data_reads (new_events s s'))))"
  by (cases c) (auto simp: op_defs run_defs dest: cases_ret split: if_splits)

theorem output_written_on_success_only_witness:
  "out_pointer (Read_gpio_dir 4 7) = Some 7 \<and>
   run_op script_hw (Read_gpio_dir 4 7) (script_machine [0, 0, 1, 4, 0, 1, 0x80]) =
     Some (0, (script_machine [])\<lparr>trace :=
       [MutexLock, Inb EC_COMMAND_PORT 0, Outb EC_GPIO_INDEX_WRITE EC_COMMAND_PORT,
        Inb EC_COMMAND_PORT 0, Outb 4 EC_STATUS_PORT, Inb EC_COMMAND_PORT 1,
        Inb EC_STATUS_PORT 4, Inb EC_COMMAND_PORT 0, Outb EC_GPIO_DIR_READ EC_COMMAND_PORT,
        Inb EC_COMMAND_PORT 1, Inb EC_STATUS_PORT 0x80, Store 7 0x80, MutexUnlock],
       mem := (\<lambda>p. 0)(7 := 0x80)\<rparr>) \<and>
   run_op script_hw (Read_gpio_dir 4 7) (script_machine [0, 0, 1, 0xff]) =
     Some (- 1, (script_machine [])\<lparr>trace :=
       [MutexLock, Inb EC_COMMAND_PORT 0, Outb EC_GPIO_INDEX_WRITE EC_COMMAND_PORT,
        Inb EC_COMMAND_PORT 0, Outb 4 EC_STATUS_PORT, Inb EC_COMMAND_PORT 1,
        Inb EC_STATUS_PORT 0xff, MutexUnlock]\<rparr>) \<and>
   mem ((script_machine [])\<lparr>trace :=
       [MutexLock, Inb EC_COMMAND_PORT 0, Outb EC_GPIO_INDEX_WRITE EC_COMMAND_PORT,
        Inb EC_COMMAND_PORT 0, Outb 4 EC_STATUS_PORT, Inb EC_COMMAND_PORT 1,
        Inb EC_STATUS_PORT 0xff, MutexUnlock]\<rparr>) = mem (script_machine [0, 0, 1, 0xff])"
proof -
  let ?a = "script_machine [0, 0, 1, 4, 0, 1, 0x80]"
  let ?a' = "(script_machine [])\<lparr>trace :=
       [MutexLock, Inb EC_COMMAND_PORT 0, Outb EC_GPIO_INDEX_WRITE EC_COMMAND_PORT,
        Inb EC_COMMAND_PORT 0, Outb 4 EC_STATUS_PORT, Inb EC_COMMAND_PORT 1,
        Inb EC_STATUS_PORT 4, Inb EC_COMMAND_PORT 0, Outb EC_GPIO_DIR_READ EC_COMMAND_PORT,
        Inb EC_COMMAND_PORT 1, Inb EC_STATUS_PORT 0x80, Store 7 0x80, MutexUnlock],
       mem := (\<lambda>p. 0)(7 := 0x80)\<rparr>"
  let ?b = "script_machine [0, 0, 1, 0xff]"
  let ?b' = "(script_machine [])\<lparr>trace :=
       [MutexLock, Inb EC_COMMAND_PORT 0, Outb EC_GPIO_INDEX_WRITE EC_COMMAND_PORT,
        Inb EC_COMMAND_PORT 0, Outb 4 EC_STATUS_PORT, Inb EC_COMMAND_PORT 1,
        Inb EC_STATUS_PORT 0xff, MutexUnlock]\<rparr>"
  have ptr: "out_pointer (Read_gpio_dir 4 7) = Some 7" by simp
  have run_a: "run_op script_hw (Read_gpio_dir 4 7) ?a = Some (0, ?a')"
    by (simp add: read_gpio_dir_def run_defs script_eval)
  have run_b: "run_op script_hw (Read_gpio_dir 4 7) ?b = Some (- 1, ?b')"
    by (simp add: read_gpio_dir_def run_defs script_eval)
  from output_written_on_success_only [OF ptr run_b] have "mem ?b' = mem ?b" by simp
  with output_written_on_success_only [OF ptr run_a] ptr run_a run_b show ?thesis
    by blast
qed

section \<open>The sentinel answer to a pin selection\<close>

text \<open>
  Claim C4. For the five operations that select a pin first (the four GPIO functions and
  \<open>read_ad_value\<close>), on any device: when the first byte read from the data port, which
  is the EC's answer to the selection, is \<^verbatim>\<open>0xff\<close>, the call returns -1, the pin is the
  only byte it wrote to the data port, the answer is the only byte it read from the data
  port, and after reading it the call does nothing but release the mutex.
\<close>

theorem invalid_pin_stops:
  "selected_pin c = Some pin \<Longrightarrow> run_op hw c s = Some (ret, s') \<Longrightarrow>
   data_reads (new_events s s') \<noteq> [] \<Longrightarrow> hd (data_reads (new_events s s')) = 0xff \<Longrightarrow>
     ret = - 1 \<and> data_writes (new_events s s') = [pin] \<and>
     data_reads (new_events s s') = [0xff] \<and>
     after_data_read (new_events s s') = [MutexUnlock]"
  by (cases c) (auto simp: op_defs run_defs dest: cases_ret split: if_splits)

theorem invalid_pin_stops_witness:
  "selected_pin (Write_gpio_status 9 1) = Some 9 \<and>
   run_op script_hw (Write_gpio_status 9 1) (script_machine [0, 0, 1, 0xff, 0, 0]) =
     Some (- 1, (script_machine [0, 0])\<lparr>trace :=
       [MutexLock, Inb EC_COMMAND_PORT 0, Outb EC_GPIO_INDEX_WRITE EC_COMMAND_PORT,
        Inb EC_COMMAND_PORT 0, Outb 9 EC_STATUS_PORT, Inb EC_COMMAND_PORT 1,
        Inb EC_STATUS_PORT 0xff, MutexUnlock]\<rparr>) \<and>
   data_reads
       [MutexLock, Inb EC_COMMAND_PORT 0, Outb EC_GPIO_INDEX_WRITE EC_COMMAND_PORT,
        Inb EC_COMMAND_PORT 0, Outb 9 EC_STATUS_PORT, Inb EC_COMMAND_PORT 1,
        Inb EC_STATUS_PORT 0xff, MutexUnlock] = [0xff] \<and>
   after_data_read
       [MutexLock, Inb EC_COMMAND_PORT 0, Outb EC_GPIO_INDEX_WRITE EC_COMMAND_PORT,
        Inb EC_COMMAND_PORT 0, Outb 9 EC_STATUS_PORT, Inb EC_COMMAND_PORT 1,
        Inb EC_STATUS_PORT 0xff, MutexUnlock] = [MutexUnlock]"
proof -
  let ?s = "script_machine [0, 0, 1, 0xff, 0, 0]"
  let ?s' = "(script_machine [0, 0])\<lparr>trace :=
       [MutexLock, Inb EC_COMMAND_PORT 0, Outb EC_GPIO_INDEX_WRITE EC_COMMAND_PORT,
        Inb EC_COMMAND_PORT 0, Outb 9 EC_STATUS_PORT, Inb EC_COMMAND_PORT 1,
        Inb EC_STATUS_PORT 0xff, MutexUnlock]\<rparr>"
  have pin: "selected_pin (Write_gpio_status 9 1) = Some 9" by simp
  have run: "run_op script_hw (Write_gpio_status 9 1) ?s = Some (- 1, ?s')"
    by (simp add: write_gpio_status_def run_defs script_eval)
  have ev: "new_events ?s ?s' =
       [MutexLock, Inb EC_COMMAND_PORT 0, Outb EC_GPIO_INDEX_WRITE EC_COMMAND_PORT,
        Inb EC_COMMAND_PORT 0, Outb 9 EC_STATUS_PORT, Inb EC_COMMAND_PORT 1,
        Inb EC_STATUS_PORT 0xff, MutexUnlock]"
    by (simp add: new_events_def script_machine_def)
  have rd: "data_reads (new_events ?s ?s') \<noteq> []" "hd (data_reads (new_events ?s ?s')) = 0xff"
    by (simp_all add: ev)
  from invalid_pin_stops [OF pin run rd] pin run show ?thesis
    by (simp add: ev)
qed

section \<open>The analog value\<close>

lemma uint_ucast_u8 [simp]: "uint (ucast (b :: u8) :: u32) = uint b"
proof -
  have "uint b < 2 ^ 8" using uint_lt2p [of b] by simp
  then have "take_bit 32 (uint b) = uint b"
    by (intro take_bit_int_eq_self) simp_all
  then show ?thesis by (simp add: unsigned_ucast_eq)
qed

lemma ad_raw_uint:
  "uint ((push_bit 8 (ucast MSB) OR ucast LSB) AND (0x03FF :: u32)) =
     (push_bit 8 (uint (MSB :: u8)) OR uint (LSB :: u8)) AND 0x03FF"
proof -
  have "uint MSB < 2 ^ 8" using uint_lt2p [of MSB] by simp
  then have "push_bit 8 (uint MSB) < 2 ^ 32"
    by (simp add: push_bit_eq_mult)
  then have "take_bit 32 (push_bit 8 (uint MSB)) = push_bit 8 (uint MSB)"
    by (intro take_bit_int_eq_self) simp_all
  then have "uint (push_bit 8 (ucast MSB :: u32)) = push_bit 8 (uint MSB)"
    by (simp add: unsigned_push_bit_eq)
  then show ?thesis
    by (simp add: uint_and uint_or)
qed

lemma ad_ret_val_int:
  "sint (ad_ret_val LSB MSB multi) =
     ((push_bit 8 (uint MSB) OR uint LSB) AND 0x03FF) * uint multi * 100"
proof -
  define raw where "raw = (push_bit 8 (uint MSB) OR uint LSB) AND (0x03FF :: int)"
  define m where "m = uint multi"
  have raw: "0 \<le> raw" "raw \<le> 1023" by (simp_all add: raw_def AND_upper2')
  have m: "0 \<le> m" "m \<le> 255"
    using uint_lt2p [of multi] by (simp_all add: m_def)
  define p where "p = raw * m"
  have "p \<le> 1023 * 255"
    unfolding p_def using raw m by (intro mult_mono) simp_all
  then have "p * 100 < 2 ^ 31" by simp
  then have bound: "raw * m * 100 < 2 ^ 31" by (simp add: p_def)
  have "0 \<le> p" unfolding p_def using raw m by simp
  then have "0 \<le> p * 100" by simp
  then have nonneg: "0 \<le> raw * m * 100" by (simp add: p_def)
  have "uint (ad_ret_val LSB MSB multi) = (raw * m * 100) mod 2 ^ 32"
    unfolding ad_ret_val_def raw_def m_def
    by (simp add: uint_word_ariths ad_raw_uint mod_mult_left_eq mod_mult_right_eq)
  also have "\<dots> = raw * m * 100"
    using nonneg bound by simp
  finally have u: "uint (ad_ret_val LSB MSB multi) = raw * m * 100" .
  have "- (2 ^ 31) \<le> (0 :: int)" by simp
  also have "0 \<le> uint (ad_ret_val LSB MSB multi)" by simp
  finally have lower: "- (2 ^ 31) \<le> uint (ad_ret_val LSB MSB multi)" .
  have upper: "uint (ad_ret_val LSB MSB multi) < 2 ^ 31" using u bound by simp
  have "signed_take_bit 31 (uint (ad_ret_val LSB MSB multi)) = uint (ad_ret_val LSB MSB multi)"
    using lower upper by (rule signed_take_bit_int_eq_self)
  then have "sint (ad_ret_val LSB MSB multi) = uint (ad_ret_val LSB MSB multi)"
    by (simp add: sint_uint)
  with u show ?thesis by (simp add: raw_def m_def)
qed

lemma ad_ret_val_nonneg: "0 \<le> sint (ad_ret_val LSB MSB multi)"
  by (simp add: ad_ret_val_int AND_upper2')

text \<open>
  Claim C3. On any device, a call of \<open>read_ad_value\<close> that returns has a non-negative
  result exactly when it read three bytes from the data port (the answer to the pin
  selection, the low byte and the high byte), and then the result is
  \<open>(((high << 8) | low) & 0x03FF) * multi * 100\<close> as an integer: the 32-bit arithmetic of
  the driver does not wrap, and the conversion to \<^verbatim>\<open>int\<close> does not change the value.
  For low \<^verbatim>\<open>0x34\<close>, high \<^verbatim>\<open>0x01\<close> and multiplier 2 the driver's expression is 61600.
\<close>

theorem read_ad_value_scaled:
  assumes "read_ad_value hw hwpin multi s = Some (ret, s')"
  shows "(0 \<le> ret \<longleftrightarrow> length (data_reads (new_events s s')) = 3) \<and>
     (data_reads (new_events s s') = [idx, low, high] \<longrightarrow>
        ret = ((push_bit 8 (uint high) OR uint low) AND 0x03FF) * uint multi * 100) \<and>
     sint (ad_ret_val 0x34 0x01 2) = 61600"
proof -
  have "(0 \<le> ret \<longleftrightarrow> length (data_reads (new_events s s')) = 3) \<and>
     (data_reads (new_events s s') = [idx, low, high] \<longrightarrow>
        ret = sint (ad_ret_val low high multi))"
    using assms ad_ret_val_nonneg
    by (auto simp: read_ad_value_def run_defs ETIMEDOUT_def dest: cases_ret split: if_splits)
  then show ?thesis
    by (simp add: ad_ret_val_int)
qed

theorem read_ad_value_scaled_witness:
  "read_ad_value script_hw 5 2 (script_machine [0, 0, 1, 5, 0, 1, 0x34, 0, 1, 0x01]) =
     Some (61600, (script_machine [])\<lparr>trace :=
       [MutexLock, Inb EC_COMMAND_PORT 0, Outb EC_AD_INDEX_WRITE EC_COMMAND_PORT,
        Inb EC_COMMAND_PORT 0, Outb 5 EC_STATUS_PORT, Inb EC_COMMAND_PORT 1,
        Inb EC_STATUS_PORT 5, Inb EC_COMMAND_PORT 0, Outb EC_AD_LSB_READ EC_COMMAND_PORT,
        Inb EC_COMMAND_PORT 1, Inb EC_STATUS_PORT 0x34, Inb EC_COMMAND_PORT 0,
        Outb EC_AD_MSB_READ EC_COMMAND_PORT, Inb EC_COMMAND_PORT 1, Inb EC_STATUS_PORT 0x01,
        MutexUnlock]\<rparr>) \<and>
   (61600 :: int) = ((push_bit 8 (uint (0x01 :: u8)) OR uint (0x34 :: u8)) AND 0x03FF) * uint (2 :: u8) * 100"
proof -
  let ?s = "script_machine [0, 0, 1, 5, 0, 1, 0x34, 0, 1, 0x01]"
  let ?s' = "(script_machine [])\<lparr>trace :=
       [MutexLock, Inb EC_COMMAND_PORT 0, Outb EC_AD_INDEX_WRITE EC_COMMAND_PORT,
        Inb EC_COMMAND_PORT 0, Outb 5 EC_STATUS_PORT, Inb EC_COMMAND_PORT 1,
        Inb EC_STATUS_PORT 5, Inb EC_COMMAND_PORT 0, Outb EC_AD_LSB_READ EC_COMMAND_PORT,
        Inb EC_COMMAND_PORT 1, Inb EC_STATUS_PORT 0x34, Inb EC_COMMAND_PORT 0,
        Outb EC_AD_MSB_READ EC_COMMAND_PORT, Inb EC_COMMAND_PORT 1, Inb EC_STATUS_PORT 0x01,
        MutexUnlock]\<rparr>"
  have run: "read_ad_value script_hw 5 2 ?s = Some (61600, ?s')"
    by (simp add: read_ad_value_def run_defs script_eval ad_ret_val_def)
  have reads: "data_reads (new_events ?s ?s') = [5, 0x34, 0x01]"
    by (simp add: new_events_def script_machine_def)
  from read_ad_value_scaled [OF run, of 5 "0x34" "0x01"] reads run show ?thesis
    by blast
qed

section \<open>The device table\<close>

subsection \<open>Resetting and filling the table\<close>

lemma and_ff [simp]: "(v :: u8) AND 0xff = v"
proof -
  have "(0xff :: u8) = - 1" by simp
  then show ?thesis by (simp only: and.right_neutral)
qed

lemma slot_overwritten [simp]:
  "(r :: ec_dynamic_table)\<lparr>device_id := a, hw_pin_num := b\<rparr> = \<lparr>device_id = a, hw_pin_num = b\<rparr>"
  by (cases r) simp

lemma tbl_set_sentinel_eq:
  "i < length tbl \<Longrightarrow> tbl_set_sentinel tbl i = tbl[i := sentinel]"
  by (simp add: tbl_set_sentinel_def sentinel_def)

lemma tbl_reset_prefix:
  "n \<le> length tbl \<Longrightarrow> foldl tbl_set_sentinel tbl [0..<n] = replicate n sentinel @ drop n tbl"
proof (induction n)
  case 0
  then show ?case by simp
next
  case (Suc n)
  then have lt: "n < length tbl" by simp
  have "foldl tbl_set_sentinel tbl [0..<Suc n] =
      tbl_set_sentinel (replicate n sentinel @ drop n tbl) n"
    using Suc by simp
  also have "\<dots> = (replicate n sentinel @ drop n tbl)[n := sentinel]"
    using lt by (intro tbl_set_sentinel_eq) simp
  also have "\<dots> = replicate n sentinel @ (drop n tbl)[0 := sentinel]"
    by (simp add: list_update_append)
  also have "drop n tbl = tbl ! n # drop (Suc n) tbl"
    using lt by (simp add: Cons_nth_drop_Suc)
  finally show ?case
    by (simp add: replicate_append_same)
qed

lemma tbl_reset_all:
  "length tbl = EC_MAX_TBL_NUM \<Longrightarrow> tbl_reset tbl = replicate EC_MAX_TBL_NUM sentinel"
  by (simp add: tbl_reset_def tbl_reset_prefix)

lemma populated_upto_reset: "populated_upto 0 (replicate EC_MAX_TBL_NUM sentinel)"
  by (simp add: populated_upto_def)

lemma populated_upto_next:
  assumes "populated_upto i tbl" "i < EC_MAX_TBL_NUM" "hw_pin_num d \<noteq> 0xff"
  shows "populated_upto (Suc i) (tbl[i := d])"
proof -
  from assms have len: "i < length tbl" by (simp add: populated_upto_def)
  have tk: "take (Suc i) (tbl[i := d]) = take i tbl @ [d]"
    using len by (simp add: take_Suc_conv_app_nth)
  have "drop i tbl = tbl ! i # drop (Suc i) tbl"
    using len by (simp add: Cons_nth_drop_Suc)
  moreover have "replicate (EC_MAX_TBL_NUM - i) sentinel =
      sentinel # replicate (EC_MAX_TBL_NUM - Suc i) sentinel"
    using assms(2) by (simp add: Suc_diff_Suc flip: replicate_Suc)
  ultimately have "drop (Suc i) tbl = replicate (EC_MAX_TBL_NUM - Suc i) sentinel"
    using assms(1) by (simp add: populated_upto_def)
  then show ?thesis
    using assms len tk by (simp add: populated_upto_def)
qed

lemma tbl_slot_table:
  assumes "tbl_slot hw i s = (x, s1)"
  shows "\<exists>evs. trace s1 = trace s @ evs \<and>
     (case x of
        Next_slot \<Rightarrow> data_writes evs = [of_nat i] \<and>
          (dym_tbl s1)[i := dym_tbl s ! i] = dym_tbl s \<and>
          (i < length (dym_tbl s) \<longrightarrow> hw_pin_num (dym_tbl s1 ! i) \<noteq> 0xff)
      | Goto_pass \<Rightarrow> data_writes evs = [of_nat i] \<and> dym_tbl s1 = dym_tbl s
      | Goto_error r \<Rightarrow> (data_writes evs = [] \<or> data_writes evs = [of_nat i]) \<and>
          r = - ETIMEDOUT \<and> dym_tbl s1 = dym_tbl s)"
  using assms unfolding tbl_slot_def
  by (auto simp: run_defs dest: cases_ret split: if_splits)

lemma tbl_scan_table:
  "populated_upto i (dym_tbl s) \<Longrightarrow>
     \<exists>k evs. i \<le> k \<and> populated_upto k (dym_tbl (snd (tbl_scan_from hw i s))) \<and>
       trace (snd (tbl_scan_from hw i s)) = trace s @ evs \<and>
       (data_writes evs = map of_nat [i..<k] \<or> data_writes evs = map of_nat [i..<Suc k]) \<and>
       (fst (tbl_scan_from hw i s) = 0 \<or>
        fst (tbl_scan_from hw i s) = - ETIMEDOUT \<and> k < EC_MAX_TBL_NUM)"
proof (induction hw i s rule: tbl_scan_from.induct)
  case (1 hw i s)
  show ?case
  proof (cases "i < EC_MAX_TBL_NUM")
    case False
    with 1(2) show ?thesis
      by (intro exI [of _ i] exI [of _ "[]"]) (simp add: tbl_scan_from.simps [of hw i])
  next
    case lt: True
    obtain x s1 where h: "tbl_slot hw i s = (x, s1)" by (cases "tbl_slot hw i s")
    from tbl_slot_table [OF h] obtain evs where
      evs: "trace s1 = trace s @ evs"
      and x: "case x of
        Next_slot \<Rightarrow> data_writes evs = [of_nat i] \<and>
          (dym_tbl s1)[i := dym_tbl s ! i] = dym_tbl s \<and>
          (i < length (dym_tbl s) \<longrightarrow> hw_pin_num (dym_tbl s1 ! i) \<noteq> 0xff)
      | Goto_pass \<Rightarrow> data_writes evs = [of_nat i] \<and> dym_tbl s1 = dym_tbl s
      | Goto_error r \<Rightarrow> (data_writes evs = [] \<or> data_writes evs = [of_nat i]) \<and>
          r = - ETIMEDOUT \<and> dym_tbl s1 = dym_tbl s"
      by auto
    show ?thesis
    proof (cases x)
      case Next_slot
      with x have w: "data_writes evs = [of_nat i]"
        and old: "(dym_tbl s1)[i := dym_tbl s ! i] = dym_tbl s"
        and pin: "i < length (dym_tbl s) \<longrightarrow> hw_pin_num (dym_tbl s1 ! i) \<noteq> 0xff"
        by simp_all
      have "(dym_tbl s)[i := dym_tbl s1 ! i] =
          ((dym_tbl s1)[i := dym_tbl s ! i])[i := dym_tbl s1 ! i]"
        by (simp only: old)
      then have upd: "dym_tbl s1 = (dym_tbl s)[i := dym_tbl s1 ! i]"
        by simp
      from pin 1(2) lt have "hw_pin_num (dym_tbl s1 ! i) \<noteq> 0xff"
        by (simp add: populated_upto_def)
      from populated_upto_next [OF 1(2) lt this] upd
      have "populated_upto (Suc i) (dym_tbl s1)"
        by simp
      with 1(1) [OF lt h [symmetric] Next_slot] obtain k evs' where k:
        "Suc i \<le> k" "populated_upto k (dym_tbl (snd (tbl_scan_from hw (i + 1) s1)))"
        "trace (snd (tbl_scan_from hw (i + 1) s1)) = trace s1 @ evs'"
        "data_writes evs' = map of_nat [Suc i..<k] \<or> data_writes evs' = map of_nat [Suc i..<Suc k]"
        "fst (tbl_scan_from hw (i + 1) s1) = 0 \<or>
         fst (tbl_scan_from hw (i + 1) s1) = - ETIMEDOUT \<and> k < EC_MAX_TBL_NUM"
        by auto
      have "[i..<k] = i # [Suc i..<k]" "[i..<Suc k] = i # [Suc i..<Suc k]"
        using k(1) by (simp_all add: upt_conv_Cons)
      with k(4) w have "data_writes (evs @ evs') = map of_nat [i..<k] \<or>
          data_writes (evs @ evs') = map of_nat [i..<Suc k]"
        by auto
      with k evs Next_slot lt h show ?thesis
        by (intro exI [of _ k] exI [of _ "evs @ evs'"])
           (auto simp: tbl_scan_from.simps [of hw i])
    next
      case Goto_pass
      with x evs h 1(2) lt show ?thesis
        by (intro exI [of _ i] exI [of _ evs]) (simp add: tbl_scan_from.simps [of hw i])
    next
      case (Goto_error r)
      with x evs h 1(2) lt show ?thesis
        by (intro exI [of _ i] exI [of _ evs]) (auto simp: tbl_scan_from.simps [of hw i])
    qed
  qed
qed

subsection \<open>A poll loop that ran out of its budget, in the trace\<close>

lemma delays_after_append [simp]:
  "delays_after n (xs @ ys) = delays_after (delays_after n xs) ys"
  by (induction xs arbitrary: n) simp_all

lemma budget_spent_end: "EC_MAX_TIMEOUT_COUNT \<le> delays_after n xs \<Longrightarrow> budget_spent n xs"
  by (induction xs arbitrary: n) simp_all

lemma budget_spent_append:
  "budget_spent n (xs @ ys) = (budget_spent n xs \<or> budget_spent (delays_after n xs) ys)"
proof (induction xs arbitrary: n)
  case Nil
  show ?case by (cases ys) auto
next
  case (Cons e xs)
  then show ?case by auto
qed

lemma after_timeout_append:
  "after_timeout n (xs @ ys) =
     (if budget_spent n xs then after_timeout n xs @ ys else after_timeout (delays_after n xs) ys)"
proof (induction xs arbitrary: n)
  case Nil
  show ?case by (cases ys) auto
next
  case (Cons e xs)
  then show ?case by auto
qed

lemma delays_after_poll_events [simp]: "delays_after n (poll_events hw e k) = n + k"
  by (induction k) (simp_all add: poll_events_Suc, simp add: poll_events_def)

lemma budget_spent_poll_events [simp]:
  "budget_spent n (poll_events hw e k) = (EC_MAX_TIMEOUT_COUNT \<le> n + k)"
proof (induction k)
  case 0
  then show ?case by (simp add: poll_events_def)
next
  case (Suc k)
  then show ?case by (auto simp: poll_events_Suc budget_spent_append)
qed

lemma after_timeout_poll_events [simp]:
  "n + k \<le> EC_MAX_TIMEOUT_COUNT \<Longrightarrow> after_timeout n (poll_events hw e k) = []"
proof (induction k)
  case 0
  then show ?case by (simp add: poll_events_def)
next
  case (Suc k)
  then show ?case by (simp add: poll_events_Suc after_timeout_append)
qed

lemma ww_evs_cases:
  "ww_ret hw e = - ETIMEDOUT \<and> ww_evs hw e = poll_events hw e EC_MAX_TIMEOUT_COUNT \<or>
   (\<exists>k<EC_MAX_TIMEOUT_COUNT. ww_ret hw e = 0 \<and>
      ww_evs hw e = poll_events hw e k @ [Inb EC_COMMAND_PORT (status_at hw e k)])"
proof (cases "\<forall>k<EC_MAX_TIMEOUT_COUNT. status_at hw e k AND EC_COMMAND_BIT_IBF \<noteq> 0")
  case True
  then have "\<forall>k<EC_MAX_TIMEOUT_COUNT. status_at hw (ec (dev_machine e)) k AND EC_COMMAND_BIT_IBF \<noteq> 0"
    by (simp add: dev_machine_def)
  from ec_wait_write_timeout [OF this] show ?thesis
    by (simp add: ww_ret_def ww_evs_def dev_machine_def)
next
  case False
  define k where "k = (LEAST k. k < EC_MAX_TIMEOUT_COUNT \<and> status_at hw e k AND EC_COMMAND_BIT_IBF = 0)"
  from False have ex: "\<exists>k. k < EC_MAX_TIMEOUT_COUNT \<and> status_at hw e k AND EC_COMMAND_BIT_IBF = 0"
    by auto
  from LeastI_ex [OF ex] have k: "k < EC_MAX_TIMEOUT_COUNT" "status_at hw e k AND EC_COMMAND_BIT_IBF = 0"
    by (simp_all add: k_def)
  have "status_at hw e j AND EC_COMMAND_BIT_IBF \<noteq> 0" if "j < k" for j
    using not_less_Least [of j "\<lambda>k. k < EC_MAX_TIMEOUT_COUNT \<and> status_at hw e k AND EC_COMMAND_BIT_IBF = 0"]
      that k(1) by (auto simp: k_def)
  then have "\<forall>j<k. status_at hw (ec (dev_machine e)) j AND EC_COMMAND_BIT_IBF \<noteq> 0"
    by (simp add: dev_machine_def)
  from ec_wait_write_success [OF k(1) this] k show ?thesis
    by (auto simp: ww_ret_def ww_evs_def dev_machine_def)
qed

lemma ww_budget [simp]:
  "(EC_MAX_TIMEOUT_COUNT \<le> delays_after 0 (ww_evs hw e)) = (ww_ret hw e \<noteq> 0)"
  "budget_spent 0 (ww_evs hw e) = (ww_ret hw e \<noteq> 0)"
  "ww_ret hw e \<noteq> 0 \<Longrightarrow> after_timeout 0 (ww_evs hw e) = []"
  using ww_evs_cases [of hw e] by (auto simp: budget_spent_append)

lemma wr_evs_cases:
  "wr_ret hw e = - ETIMEDOUT \<and> wr_evs hw e = poll_events hw e EC_MAX_TIMEOUT_COUNT \<or>
   (\<exists>k<EC_MAX_TIMEOUT_COUNT. wr_ret hw e = 0 \<and>
      wr_evs hw e = poll_events hw e k @ [Inb EC_COMMAND_PORT (status_at hw e k)])"
proof (cases "\<forall>k<EC_MAX_TIMEOUT_COUNT. status_at hw e k AND EC_COMMAND_BIT_OBF = 0")
  case True
  then have "\<forall>k<EC_MAX_TIMEOUT_COUNT. status_at hw (ec (dev_machine e)) k AND EC_COMMAND_BIT_OBF = 0"
    by (simp add: dev_machine_def)
  from ec_wait_read_timeout [OF this] show ?thesis
    by (simp add: wr_ret_def wr_evs_def dev_machine_def)
next
  case False
  define k where "k = (LEAST k. k < EC_MAX_TIMEOUT_COUNT \<and> status_at hw e k AND EC_COMMAND_BIT_OBF \<noteq> 0)"
  from False have ex: "\<exists>k. k < EC_MAX_TIMEOUT_COUNT \<and> status_at hw e k AND EC_COMMAND_BIT_OBF \<noteq> 0"
    by auto
  from LeastI_ex [OF ex] have k: "k < EC_MAX_TIMEOUT_COUNT" "status_at hw e k AND EC_COMMAND_BIT_OBF \<noteq> 0"
    by (simp_all add: k_def)
  have "status_at hw e j AND EC_COMMAND_BIT_OBF = 0" if "j < k" for j
    using not_less_Least [of j "\<lambda>k. k < EC_MAX_TIMEOUT_COUNT \<and> status_at hw e k AND EC_COMMAND_BIT_OBF \<noteq> 0"]
      that k(1) by (auto simp: k_def)
  then have "\<forall>j<k. status_at hw (ec (dev_machine e)) j AND EC_COMMAND_BIT_OBF = 0"
    by (simp add: dev_machine_def)
  from ec_wait_read_success [OF k(1) this] k show ?thesis
    by (auto simp: wr_ret_def wr_evs_def dev_machine_def)
qed

lemma wr_budget [simp]:
  "(EC_MAX_TIMEOUT_COUNT \<le> delays_after 0 (wr_evs hw e)) = (wr_ret hw e \<noteq> 0)"
  "budget_spent 0 (wr_evs hw e) = (wr_ret hw e \<noteq> 0)"
  "wr_ret hw e \<noteq> 0 \<Longrightarrow> after_timeout 0 (wr_evs hw e) = []"
  using wr_evs_cases [of hw e] by (auto simp: budget_spent_append)


lemma budget_pos [simp]: "0 < EC_MAX_TIMEOUT_COUNT" "EC_MAX_TIMEOUT_COUNT \<noteq> 0"
  by (simp_all add: EC_MAX_TIMEOUT_COUNT_def)

text \<open>
  The two polls return \<^verbatim>\<open>-ETIMEDOUT\<close> exactly when their events spend the budget.
\<close>

lemma ec_wait_write_timed_out:
  "poll_timed_out (new_events s (snd (ec_wait_write hw s))) =
     (fst (ec_wait_write hw s) = - ETIMEDOUT)"
  using ww_cases [of hw "ec s"]
  by (auto simp: ec_wait_write_frame poll_timed_out_def)

lemma ec_wait_read_timed_out:
  "poll_timed_out (new_events s (snd (ec_wait_read hw s))) =
     (fst (ec_wait_read hw s) = - ETIMEDOUT)"
  using wr_cases [of hw "ec s"]
  by (auto simp: ec_wait_read_frame poll_timed_out_def)

text \<open>
  Every poll of the scan starts right after an event that is no part of a poll loop, so
  the count of delays starts at 0 for each of them. A round of the scan that leaves to
  \<^verbatim>\<open>error:\<close> has spent the budget with its last event; a round that leaves in another way
  has not spent it, and its last event is a read of the data port.
\<close>

lemma tbl_slot_budget:
  assumes "tbl_slot hw i s = (x, s1)"
  shows "\<exists>evs. trace s1 = trace s @ evs \<and>
     (case x of
        Goto_error r \<Rightarrow> r = - ETIMEDOUT \<and> budget_spent 0 evs \<and> after_timeout 0 evs = []
      | _ \<Rightarrow> \<not> budget_spent 0 evs \<and> delays_after 0 evs = 0)"
  using assms unfolding tbl_slot_def
  by (auto simp: run_defs budget_spent_append after_timeout_append dest: cases_ret
        split: if_splits)

lemma tbl_scan_budget:
  "\<exists>evs. trace (snd (tbl_scan_from hw i s)) = trace s @ evs \<and>
     (fst (tbl_scan_from hw i s) = 0 \<and> \<not> budget_spent 0 evs \<or>
      fst (tbl_scan_from hw i s) = - ETIMEDOUT \<and> budget_spent 0 evs \<and>
        after_timeout 0 evs = [])"
proof (induction hw i s rule: tbl_scan_from.induct)
  case (1 hw i s)
  show ?case
  proof (cases "i < EC_MAX_TBL_NUM")
    case False
    then show ?thesis
      by (intro exI [of _ "[]"]) (simp add: tbl_scan_from.simps [of hw i])
  next
    case lt: True
    obtain x s1 where h: "tbl_slot hw i s = (x, s1)" by (cases "tbl_slot hw i s")
    from tbl_slot_budget [OF h] obtain evs where
      evs: "trace s1 = trace s @ evs"
      and x: "case x of
        Goto_error r \<Rightarrow> r = - ETIMEDOUT \<and> budget_spent 0 evs \<and> after_timeout 0 evs = []
      | _ \<Rightarrow> \<not> budget_spent 0 evs \<and> delays_after 0 evs = 0"
      by auto
    show ?thesis
    proof (cases x)
      case Next_slot
      from 1(1) [OF lt h [symmetric] Next_slot] obtain evs' where k:
        "trace (snd (tbl_scan_from hw (i + 1) s1)) = trace s1 @ evs'"
        "fst (tbl_scan_from hw (i + 1) s1) = 0 \<and> \<not> budget_spent 0 evs' \<or>
         fst (tbl_scan_from hw (i + 1) s1) = - ETIMEDOUT \<and> budget_spent 0 evs' \<and>
           after_timeout 0 evs' = []"
        by auto
      with x evs Next_slot lt h show ?thesis
        by (intro exI [of _ "evs @ evs'"])
           (auto simp: tbl_scan_from.simps [of hw i] budget_spent_append after_timeout_append
              split: if_splits)
    next
      case Goto_pass
      with x evs h lt show ?thesis
        by (intro exI [of _ evs]) (simp add: tbl_scan_from.simps [of hw i])
    next
      case (Goto_error r)
      with x evs h lt show ?thesis
        by (intro exI [of _ evs]) (auto simp: tbl_scan_from.simps [of hw i])
    qed
  qed
qed

lemma adv_get_dynamic_tab_budget:
  assumes "adv_get_dynamic_tab hw s = Some (ret, s')"
  shows "ret = 0 \<and> \<not> poll_timed_out (new_events s s') \<or>
     ret = - ETIMEDOUT \<and> poll_timed_out (new_events s s') \<and>
       after_timeout 0 (new_events s s') = [MutexUnlock]"
proof -
  let ?s1 = "s\<lparr>lock := True, trace := trace s @ [MutexLock], dym_tbl := tbl_reset (dym_tbl s)\<rparr>"
  from assms have r: "ret = fst (tbl_scan_from hw 0 ?s1)"
    and s': "s' = mutex_unlock (snd (tbl_scan_from hw 0 ?s1))"
    by (auto simp: adv_get_dynamic_tab_def mutex_lock_def Let_def case_prod_beta split: if_splits)
  from tbl_scan_budget [of hw 0 ?s1] r obtain evs where k:
    "trace (snd (tbl_scan_from hw 0 ?s1)) = trace ?s1 @ evs"
    "ret = 0 \<and> \<not> budget_spent 0 evs \<or>
     ret = - ETIMEDOUT \<and> budget_spent 0 evs \<and> after_timeout 0 evs = []"
    by auto
  from k(1) s' have ev: "new_events s s' = MutexLock # evs @ [MutexUnlock]"
    by (simp add: new_events_def mutex_unlock_def)
  have "budget_spent 0 evs \<or> \<not> EC_MAX_TIMEOUT_COUNT \<le> delays_after 0 evs"
    using budget_spent_end [of 0 evs] by blast
  with k(2) ev show ?thesis
    by (auto simp: poll_timed_out_def budget_spent_append after_timeout_append)
qed

subsection \<open>A timeout during discovery\<close>

text \<open>
  What \<open>adv_get_dynamic_tab\<close> itself leaves in the table when it returns an error: there
  is a slot \<open>k\<close> at which the scan stopped; the slots before \<open>k\<close> hold what the completed
  rounds wrote, each a pin other than \<^verbatim>\<open>0xff\<close>, the slots from \<open>k\<close> on hold the sentinel
  pair, and the items selected on the data port are 0 up to \<open>k\<close>, with or without \<open>k\<close>
  itself. The function does not reset the slots it has filled; it is the failed probe
  that does away with the table.
\<close>

lemma adv_get_dynamic_tab_error_table:
  assumes "length (dym_tbl s) = EC_MAX_TBL_NUM"
    and "adv_get_dynamic_tab hw s = Some (ret, s')"
    and "ret \<noteq> 0"
  shows "ret = - ETIMEDOUT \<and> \<not> lock s' \<and>
    (\<exists>k<EC_MAX_TBL_NUM. populated_upto k (dym_tbl s') \<and>
       (data_writes (new_events s s') = map of_nat [0..<k] \<or>
        data_writes (new_events s s') = map of_nat [0..<Suc k]))"
proof -
  let ?s1 = "s\<lparr>lock := True, trace := trace s @ [MutexLock], dym_tbl := tbl_reset (dym_tbl s)\<rparr>"
  from assms(2) have r: "ret = fst (tbl_scan_from hw 0 ?s1)"
    and s': "s' = mutex_unlock (snd (tbl_scan_from hw 0 ?s1))"
    by (auto simp: adv_get_dynamic_tab_def mutex_lock_def Let_def case_prod_beta split: if_splits)
  have "populated_upto 0 (dym_tbl ?s1)"
    using assms(1) by (simp add: tbl_reset_all populated_upto_reset)
  from tbl_scan_table [OF this, of hw] obtain k evs where k:
    "populated_upto k (dym_tbl (snd (tbl_scan_from hw 0 ?s1)))"
    "trace (snd (tbl_scan_from hw 0 ?s1)) = trace ?s1 @ evs"
    "data_writes evs = map of_nat [0..<k] \<or> data_writes evs = map of_nat [0..<Suc k]"
    "fst (tbl_scan_from hw 0 ?s1) = 0 \<or>
     fst (tbl_scan_from hw 0 ?s1) = - ETIMEDOUT \<and> k < EC_MAX_TBL_NUM"
    by blast
  from k(2) s' have "new_events s s' = MutexLock # evs @ [MutexUnlock]"
    by (simp add: new_events_def mutex_unlock_def)
  then have "data_writes (new_events s s') = data_writes evs"
    by simp
  with k r s' assms(3) show ?thesis
    by (auto simp: mutex_unlock_def)
qed

lemma script_slot_dead:
  "ec s = [] \<Longrightarrow> fst (tbl_slot script_hw i s) = Goto_error (- ETIMEDOUT)"
  by (simp add: tbl_slot_def run_defs script_eval)

lemma script_discovery_timeout:
  "\<exists>s'. adv_get_dynamic_tab script_hw (script_machine [0, 0, 1, 0, 0, 1, 7, 0, 1, 0x50]) =
       Some (- ETIMEDOUT, s') \<and>
     dym_tbl s' = \<lparr>device_id = 0x50, hw_pin_num = 7\<rparr> # replicate 31 sentinel"
proof -
  let ?s = "script_machine [0, 0, 1, 0, 0, 1, 7, 0, 1, 0x50]"
  let ?t = "?s\<lparr>lock := True, trace := trace ?s @ [MutexLock], dym_tbl := tbl_reset (dym_tbl ?s)\<rparr>"
  have free: "lock ?s = False" by (simp add: script_machine_def)
  have tbl0: "dym_tbl ?t = replicate EC_MAX_TBL_NUM sentinel"
    by (simp add: tbl_reset_all) (simp add: script_machine_def tbl_reset_all)
  obtain s1 where slot0: "tbl_slot script_hw 0 ?t = (Next_slot, s1)" and "ec s1 = []"
    and tbl1: "dym_tbl s1 =
      (replicate EC_MAX_TBL_NUM sentinel)[0 := \<lparr>device_id = 0x50, hw_pin_num = 7\<rparr>]"
    using tbl0 by (simp add: tbl_slot_def run_defs script_eval)
  obtain x s2 where slot1: "tbl_slot script_hw 1 s1 = (x, s2)"
    by (cases "tbl_slot script_hw 1 s1")
  with script_slot_dead [OF \<open>ec s1 = []\<close>, of 1] have x: "x = Goto_error (- ETIMEDOUT)"
    by simp
  from tbl_slot_table [OF slot1] x have tbl2: "dym_tbl s2 = dym_tbl s1" by auto
  have scan: "tbl_scan_from script_hw 0 ?t = (- ETIMEDOUT, s2)"
    using slot0 slot1 x
    by (simp add: tbl_scan_from.simps [of _ 0] tbl_scan_from.simps [of _ "Suc 0"]
          EC_MAX_TBL_NUM_def)
  have run: "adv_get_dynamic_tab script_hw ?s = Some (- ETIMEDOUT, mutex_unlock s2)"
    using scan free by (simp add: adv_get_dynamic_tab_def mutex_lock_def)
  have eq: "EC_MAX_TBL_NUM = Suc 31" by (simp add: EC_MAX_TBL_NUM_def)
  have "replicate EC_MAX_TBL_NUM sentinel = sentinel # replicate 31 sentinel"
    unfolding eq by (rule replicate_Suc)
  with tbl1 tbl2 have "dym_tbl s2 = \<lparr>device_id = 0x50, hw_pin_num = 7\<rparr> # replicate 31 sentinel"
    by simp
  with run show ?thesis
    by (simp add: mutex_unlock_def)
qed

lemma no_events [simp]: "new_events s (s\<lparr>dym_tbl := tbl, lock := l\<rparr>) = []"
  by (simp add: new_events_def)

text \<open>
  Claim C2. On any device, a run of \<open>adv_get_dynamic_tab\<close> in which a poll loop used up
  its retry budget returns \<^verbatim>\<open>-ETIMEDOUT\<close> and leaves the mutex free, and after the last
  delay of that loop it did nothing but release the mutex: the scan is aborted, and no
  port is touched any more. The error reaches the callers as it is:
  \<open>adv_ec_init_ec_data\<close> returns it, and \<open>adv_ec_probe\<close> returns it, so that the probe
  fails and the table, whatever its slots hold by then, is discarded with everything
  else the probe allocated.
\<close>

theorem discovery_timeout_aborts:
  "(adv_get_dynamic_tab hw s = Some (ret, s') \<and> poll_timed_out (new_events s s') \<longrightarrow>
      ret = - ETIMEDOUT \<and> \<not> lock s' \<and> after_timeout 0 (new_events s s') = [MutexUnlock]) \<and>
   (adv_ec_init_ec_data hw env t = Some (iret, t') \<and> poll_timed_out (new_events t t') \<longrightarrow>
      iret = - ETIMEDOUT) \<and>
   (adv_ec_probe hw env u = Some (pret, u') \<and> poll_timed_out (new_events u u') \<longrightarrow>
      pret = - ETIMEDOUT \<and> table_after_probe pret u' = None)"
proof -
  have tab: "r = - ETIMEDOUT \<and> \<not> lock b \<and> after_timeout 0 (new_events a b) = [MutexUnlock]"
    if "adv_get_dynamic_tab hw a = Some (r, b)" "poll_timed_out (new_events a b)" for a r b
    using adv_get_dynamic_tab_budget [OF that(1)] adv_get_dynamic_tab_quiet [OF that(1)] that(2)
    by auto
  have init: "r = - ETIMEDOUT"
    if "adv_ec_init_ec_data hw env a = Some (r, b)" "poll_timed_out (new_events a b)" for a r b
  proof -
    let ?a = "a\<lparr>lock := False,
      dym_tbl := replicate EC_MAX_TBL_NUM \<lparr>device_id = 0, hw_pin_num = 0\<rparr>\<rparr>"
    have same: "new_events ?a b = new_events a b"
      by (simp add: new_events_def)
    from that have "adv_get_dynamic_tab hw ?a = Some (r, b)"
      by (auto simp: adv_ec_init_ec_data_def Let_def poll_timed_out_def split: if_splits)
    from tab [OF this] that(2) same show ?thesis
      by simp
  qed
  have probe: "r = - ETIMEDOUT \<and> table_after_probe r b = None"
    if "adv_ec_probe hw env a = Some (r, b)" "poll_timed_out (new_events a b)" for a r b
  proof -
    from that obtain r' where "adv_ec_init_ec_data hw env a = Some (r', b)"
      and r: "r' \<noteq> 0 \<longrightarrow> r = r'"
      by (auto simp: adv_ec_probe_def poll_timed_out_def new_events_def
            split: if_splits option.splits)
    from init [OF this(1) that(2)] r show ?thesis
      by (simp add: table_after_probe_def)
  qed
  from tab init probe show ?thesis
    by blast
qed

text \<open>
  An EC that answers for item 0 (pin 7, device id \<^verbatim>\<open>0x50\<close>) and then stops responding:
  the first poll of the round for item 1 times out. Discovery, initialisation and probe
  return \<^verbatim>\<open>-ETIMEDOUT\<close>; slot 0 of the table still holds the entry of item 0 when the
  probe returns, and the table is discarded.
\<close>

theorem discovery_timeout_aborts_witness:
  "\<exists>s'. adv_get_dynamic_tab script_hw (script_machine [0, 0, 1, 0, 0, 1, 7, 0, 1, 0x50]) =
       Some (- ETIMEDOUT, s') \<and>
     adv_ec_init_ec_data script_hw env_ok (script_machine [0, 0, 1, 0, 0, 1, 7, 0, 1, 0x50]) =
       Some (- ETIMEDOUT, s') \<and>
     adv_ec_probe script_hw env_ok (script_machine [0, 0, 1, 0, 0, 1, 7, 0, 1, 0x50]) =
       Some (- ETIMEDOUT, s') \<and>
     poll_timed_out (new_events (script_machine [0, 0, 1, 0, 0, 1, 7, 0, 1, 0x50]) s') \<and>
     \<not> lock s' \<and>
     after_timeout 0 (new_events (script_machine [0, 0, 1, 0, 0, 1, 7, 0, 1, 0x50]) s') =
       [MutexUnlock] \<and>
     dym_tbl s' = \<lparr>device_id = 0x50, hw_pin_num = 7\<rparr> # replicate 31 sentinel \<and>
     table_after_probe (- ETIMEDOUT) s' = None"
proof -
  let ?s = "script_machine [0, 0, 1, 0, 0, 1, 7, 0, 1, 0x50]"
  from script_discovery_timeout obtain s' where
    run: "adv_get_dynamic_tab script_hw ?s = Some (- ETIMEDOUT, s')" and
    tbl: "dym_tbl s' = \<lparr>device_id = 0x50, hw_pin_num = 7\<rparr> # replicate 31 sentinel"
    by blast
  from adv_get_dynamic_tab_budget [OF run] have timed: "poll_timed_out (new_events ?s s')"
    by simp
  have "?s\<lparr>dym_tbl := [], lock := False,
      dym_tbl := replicate EC_MAX_TBL_NUM \<lparr>device_id = 0, hw_pin_num = 0\<rparr>\<rparr> = ?s"
    by (simp add: script_machine_def)
  with run have init: "adv_ec_init_ec_data script_hw env_ok ?s = Some (- ETIMEDOUT, s')"
    by (simp add: adv_ec_init_ec_data_def env_ok_def)
  then have probe: "adv_ec_probe script_hw env_ok ?s = Some (- ETIMEDOUT, s')"
    by (simp add: adv_ec_probe_def env_ok_def)
  from discovery_timeout_aborts [where hw = script_hw and s = ?s and ret = "- ETIMEDOUT"
      and s' = s' and env = env_ok and t = ?s and iret = "- ETIMEDOUT" and t' = s'
      and u = ?s and pret = "- ETIMEDOUT" and u' = s'] run init probe timed
  have "\<not> lock s' \<and> after_timeout 0 (new_events ?s s') = [MutexUnlock] \<and>
      table_after_probe (- ETIMEDOUT) s' = None"
    by blast
  with run init probe timed tbl show ?thesis
    by blast
qed

section \<open>The driver against the mock EC\<close>

lemma mock_io [simp]:
  "hw_inb mock_hw EC_COMMAND_PORT e = (mock_status e, e)"
  "hw_inb mock_hw EC_STATUS_PORT e =
     (case m_obuf e of None \<Rightarrow> (0, e) | Some v \<Rightarrow> (v, e\<lparr>m_obuf := None\<rparr>))"
  "hw_outb mock_hw v EC_COMMAND_PORT e =
     (if 0 < m_busy e then e else (mock_command v e)\<lparr>m_busy := m_latency e\<rparr>)"
  "hw_outb mock_hw v EC_STATUS_PORT e =
     (if 0 < m_busy e then e else (mock_data v e)\<lparr>m_busy := m_latency e\<rparr>)"
  "hw_udelay mock_hw us e = e\<lparr>m_busy := m_busy e - 1\<rparr>"
  by (simp_all add: mock_hw_def)

lemma mock_poll_steps: "(poll_step mock_hw ^^ j) e = e\<lparr>m_busy := m_busy e - j\<rparr>"
  by (induction j) (simp_all add: poll_step_def)

lemma mock_status_at: "status_at mock_hw e j = mock_status (e\<lparr>m_busy := m_busy e - j\<rparr>)"
  by (simp add: status_at_def mock_poll_steps)

lemma mock_ww:
  assumes "m_busy e < EC_MAX_TIMEOUT_COUNT"
  shows "ww_ret mock_hw e = 0" "ww_ec mock_hw e = e\<lparr>m_busy := 0\<rparr>"
proof -
  have "ec_wait_write mock_hw (dev_machine e) =
     (0, (dev_machine e)\<lparr>ec := snd (hw_inb mock_hw EC_COMMAND_PORT ((poll_step mock_hw ^^ m_busy e) (ec (dev_machine e)))),
        trace := trace (dev_machine e) @ poll_events mock_hw (ec (dev_machine e)) (m_busy e) @
          [Inb EC_COMMAND_PORT (status_at mock_hw (ec (dev_machine e)) (m_busy e))]\<rparr>)"
    using assms
    by (intro ec_wait_write_success)
       (simp_all add: mock_status_at dev_machine_def mock_status_def EC_COMMAND_BIT_IBF_def
          EC_COMMAND_BIT_OBF_def)
  then show "ww_ret mock_hw e = 0" "ww_ec mock_hw e = e\<lparr>m_busy := 0\<rparr>"
    by (simp_all add: ww_ret_def ww_ec_def mock_poll_steps dev_machine_def)
qed

lemma mock_wr:
  assumes "m_busy e < EC_MAX_TIMEOUT_COUNT" "m_obuf e \<noteq> None"
  shows "wr_ret mock_hw e = 0" "wr_ec mock_hw e = e\<lparr>m_busy := 0\<rparr>"
proof -
  have "ec_wait_read mock_hw (dev_machine e) =
     (0, (dev_machine e)\<lparr>ec := snd (hw_inb mock_hw EC_COMMAND_PORT ((poll_step mock_hw ^^ m_busy e) (ec (dev_machine e)))),
        trace := trace (dev_machine e) @ poll_events mock_hw (ec (dev_machine e)) (m_busy e) @
          [Inb EC_COMMAND_PORT (status_at mock_hw (ec (dev_machine e)) (m_busy e))]\<rparr>)"
    using assms
    by (intro ec_wait_read_success)
       (simp_all add: mock_status_at dev_machine_def mock_status_def EC_COMMAND_BIT_IBF_def
          EC_COMMAND_BIT_OBF_def)
  then show "wr_ret mock_hw e = 0" "wr_ec mock_hw e = e\<lparr>m_busy := 0\<rparr>"
    by (simp_all add: wr_ret_def wr_ec_def mock_poll_steps dev_machine_def)
qed

lemmas mock_eval = mock_ww mock_wr mock_command_def mock_data_def

subsection \<open>Hardware RAM\<close>

text \<open>
  Claim C8. Against the mock EC, whatever its state, as long as it answers within the
  retry budget, and with the mutex free: for every address and byte,
  \<open>write_hw_ram\<close> returns 0 and the mock's RAM holds the byte at the address, and
  \<open>read_hw_ram\<close> of the same address right after returns 0 and has stored that byte
  through the output pointer.
\<close>

theorem hw_ram_round_trip:
  assumes "mock_responsive (ec s)" "\<not> lock s"
  shows "\<exists>s1 s2. write_hw_ram mock_hw addr v s = Some (0, s1) \<and>
     m_ram (ec s1) addr = v \<and>
     read_hw_ram mock_hw addr p s1 = Some (0, s2) \<and> mem s2 p = v"
  using assms
  by (simp add: write_hw_ram_def read_hw_ram_def run_defs mock_eval mock_responsive_def
       EC_HW_RAM_READ_def EC_HW_RAM_WRITE_def EC_TBL_WRITE_ITEM_def EC_TBL_GET_PIN_def EC_TBL_GET_DEVID_def)

theorem hw_ram_round_trip_witness:
  "mock_responsive (ec (mock_machine 3 demo_tbl)) \<and> \<not> lock (mock_machine 3 demo_tbl) \<and>
   (\<exists>s1 s2. write_hw_ram mock_hw 0x5E 0x2A (mock_machine 3 demo_tbl) = Some (0, s1) \<and>
      m_ram (ec s1) 0x5E = 0x2A \<and>
      read_hw_ram mock_hw 0x5E 7 s1 = Some (0, s2) \<and> mem s2 7 = 0x2A)"
proof -
  have a: "mock_responsive (ec (mock_machine 3 demo_tbl))"
    by (simp add: mock_responsive_def mock_machine_def EC_MAX_TIMEOUT_COUNT_def)
  have b: "\<not> lock (mock_machine 3 demo_tbl)"
    by (simp add: mock_machine_def)
  from hw_ram_round_trip [OF a b, of "0x5E" "0x2A" 7] a b show ?thesis
    by blast
qed

subsection \<open>Discovery stops at the first item that is not defined\<close>

lemmas tbl_opcodes = EC_TBL_WRITE_ITEM_def EC_TBL_GET_PIN_def EC_TBL_GET_DEVID_def
  EC_HW_RAM_READ_def EC_HW_RAM_WRITE_def

lemma slot_eta [simp]:
  "\<lparr>device_id = device_id d, hw_pin_num = hw_pin_num d\<rparr> = (d :: ec_dynamic_table)"
  by (cases d) simp

lemma mock_slot_defined:
  assumes "mock_responsive (ec s)" "m_tbl (ec s) (of_nat i) = Some d"
    "hw_pin_num d \<noteq> 0xff" "(of_nat i :: u8) \<noteq> 0xff"
  shows "\<exists>s1 evs. tbl_slot mock_hw i s = (Next_slot, s1) \<and>
     dym_tbl s1 = (dym_tbl s)[i := d] \<and> mock_responsive (ec s1) \<and>
     m_tbl (ec s1) = m_tbl (ec s) \<and> lock s1 = lock s \<and>
     trace s1 = trace s @ evs \<and> data_writes evs = [of_nat i]"
  using assms
  by (simp add: tbl_slot_def run_defs mock_eval mock_responsive_def tbl_opcodes)

lemma mock_slot_undefined:
  assumes "mock_responsive (ec s)" "m_tbl (ec s) (of_nat i) = None"
  shows "\<exists>s1 evs. tbl_slot mock_hw i s = (Goto_pass, s1) \<and>
     dym_tbl s1 = dym_tbl s \<and> lock s1 = lock s \<and>
     trace s1 = trace s @ evs \<and> data_writes evs = [of_nat i]"
  using assms
  by (simp add: tbl_slot_def run_defs mock_eval mock_responsive_def tbl_opcodes)

text \<open>
  Claim C6. Against the mock EC, whatever its latency within the retry budget and
  whatever it defines for items 3 and up: when items 0 and 1 are defined with pins other
  than \<^verbatim>\<open>0xff\<close> and item 2 is not defined, \<open>adv_get_dynamic_tab\<close> returns 0 with the
  mutex free, slots 0 and 1 hold the two entries of the EC, every slot from 2 to
  \<^verbatim>\<open>EC_MAX_TBL_NUM - 1\<close> holds the sentinel pair, and the item numbers written to the data
  port are 0, 1 and 2 and no more: the scan stops at item 2.
\<close>

theorem discovery_halts_at_first_gap:
  assumes "mock_responsive (ec s)" "\<not> lock s" "length (dym_tbl s) = EC_MAX_TBL_NUM"
    and "m_tbl (ec s) 0 = Some d0" "hw_pin_num d0 \<noteq> 0xff"
    and "m_tbl (ec s) 1 = Some d1" "hw_pin_num d1 \<noteq> 0xff"
    and "m_tbl (ec s) 2 = None"
  shows "\<exists>s'. adv_get_dynamic_tab mock_hw s = Some (0, s') \<and>
     dym_tbl s' = d0 # d1 # replicate (EC_MAX_TBL_NUM - 2) sentinel \<and>
     data_writes (new_events s s') = [0, 1, 2] \<and> \<not> lock s'"
proof -
  let ?t = "s\<lparr>lock := True, trace := trace s @ [MutexLock], dym_tbl := tbl_reset (dym_tbl s)\<rparr>"
  have t: "mock_responsive (ec ?t)" "m_tbl (ec ?t) (of_nat 0) = Some d0"
    "dym_tbl ?t = replicate EC_MAX_TBL_NUM sentinel"
    using assms by (simp_all add: tbl_reset_all)
  from mock_slot_defined [OF t(1,2) assms(5)] obtain s1 evs1 where
    s1: "tbl_slot mock_hw 0 ?t = (Next_slot, s1)" "dym_tbl s1 = (dym_tbl ?t)[0 := d0]"
      "mock_responsive (ec s1)" "m_tbl (ec s1) = m_tbl (ec s)" "lock s1"
      "trace s1 = trace ?t @ evs1" "data_writes evs1 = [0]"
    by auto
  have "m_tbl (ec s1) (of_nat 1) = Some d1" using s1(4) assms(6) by simp
  from mock_slot_defined [OF s1(3) this assms(7)] obtain s2 evs2 where
    s2: "tbl_slot mock_hw 1 s1 = (Next_slot, s2)" "dym_tbl s2 = (dym_tbl s1)[1 := d1]"
      "mock_responsive (ec s2)" "m_tbl (ec s2) = m_tbl (ec s)" "lock s2"
      "trace s2 = trace s1 @ evs2" "data_writes evs2 = [1]"
    using s1(4,5) by auto
  have "m_tbl (ec s2) (of_nat 2) = None" using s2(4) assms(8) by simp
  from mock_slot_undefined [OF s2(3) this] obtain s3 evs3 where
    s3: "tbl_slot mock_hw 2 s2 = (Goto_pass, s3)" "dym_tbl s3 = dym_tbl s2" "lock s3"
      "trace s3 = trace s2 @ evs3" "data_writes evs3 = [2]"
    using s2(5) by auto
  have "tbl_scan_from mock_hw (Suc (Suc 0)) s2 = (0, s3)"
    using s3(1) by (subst tbl_scan_from.simps) (simp add: EC_MAX_TBL_NUM_def numeral_2_eq_2)
  with s2(1) have "tbl_scan_from mock_hw (Suc 0) s1 = (0, s3)"
    by (subst tbl_scan_from.simps) (simp add: EC_MAX_TBL_NUM_def)
  with s1(1) have scan: "tbl_scan_from mock_hw 0 ?t = (0, s3)"
    by (subst tbl_scan_from.simps) (simp add: EC_MAX_TBL_NUM_def)
  have run: "adv_get_dynamic_tab mock_hw s = Some (0, mutex_unlock s3)"
    using scan assms(2) by (simp add: adv_get_dynamic_tab_def mutex_lock_def)
  have eq: "EC_MAX_TBL_NUM = Suc (Suc (EC_MAX_TBL_NUM - 2))" by (simp add: EC_MAX_TBL_NUM_def)
  have "replicate EC_MAX_TBL_NUM sentinel =
      sentinel # sentinel # replicate (EC_MAX_TBL_NUM - 2) sentinel"
    by (subst eq) (simp only: replicate_Suc)
  with s1(2) s2(2) s3(2) t(3)
  have tbl: "dym_tbl s3 = d0 # d1 # replicate (EC_MAX_TBL_NUM - 2) sentinel"
    by simp
  have "trace (mutex_unlock s3) = trace s @ MutexLock # evs1 @ evs2 @ evs3 @ [MutexUnlock]"
    using s1(6) s2(6) s3(4) by (simp add: mutex_unlock_def)
  then have "data_writes (new_events s (mutex_unlock s3)) = [0, 1, 2]"
    using s1(7) s2(7) s3(5) by (simp add: new_events_def)
  with run tbl show ?thesis
    by (simp add: mutex_unlock_def)
qed

theorem discovery_halts_at_first_gap_witness:
  "op_ret (adv_get_dynamic_tab mock_hw (mock_machine 3 demo_tbl)) = Some 0 \<and>
   op_tbl (adv_get_dynamic_tab mock_hw (mock_machine 3 demo_tbl)) =
     Some (\<lparr>device_id = 0x50, hw_pin_num = 4\<rparr> # \<lparr>device_id = 0x28, hw_pin_num = 9\<rparr> #
           replicate 30 sentinel) \<and>
   demo_tbl 2 = None \<and> demo_tbl 3 \<noteq> None"
proof -
  let ?s = "mock_machine 3 demo_tbl"
  have h: "mock_responsive (ec ?s)" "\<not> lock ?s" "length (dym_tbl ?s) = EC_MAX_TBL_NUM"
    "m_tbl (ec ?s) 0 = Some \<lparr>device_id = 0x50, hw_pin_num = 4\<rparr>"
    "hw_pin_num \<lparr>device_id = 0x50, hw_pin_num = 4\<rparr> \<noteq> 0xff"
    "m_tbl (ec ?s) 1 = Some \<lparr>device_id = 0x28, hw_pin_num = 9\<rparr>"
    "hw_pin_num \<lparr>device_id = 0x28, hw_pin_num = 9\<rparr> \<noteq> 0xff"
    "m_tbl (ec ?s) 2 = None"
    by (simp_all add: mock_responsive_def mock_machine_def EC_MAX_TIMEOUT_COUNT_def demo_tbl_def)
  have "EC_MAX_TBL_NUM - 2 = 30" by (simp add: EC_MAX_TBL_NUM_def)
  with discovery_halts_at_first_gap [OF h] show ?thesis
    by (auto simp: op_ret_def op_tbl_def demo_tbl_def)
qed

end
